theory Spec2Isabelle
  imports Complex_Main
begin

section \<open>JavaScript values used by the dashboard\<close>

text \<open>
  A JavaScript \<open>number\<close> is an IEEE-754 double. A finite double is represented by the
  rational it denotes (so \<open>-0\<close> and \<open>0\<close> are one value, which no function below tells
  apart); the three non-finite doubles are constructors of their own. Arithmetic rounds
  its exact result to the nearest double, as \<open>round_double\<close> below says.
\<close>

datatype js_number = Finite rat | NaN | PosInfinity | NegInfinity

text \<open>A value of type \<open>T | null | undefined\<close>.\<close>

datatype 'a js_opt = Null | Undefined | Val 'a

datatype js_error = RangeError

subsection \<open>Rounding to the nearest double\<close>

text \<open>Integer powers of two and of ten, negative exponents included.\<close>

definition pow2 :: "int \<Rightarrow> rat" where
  "pow2 e = (if 0 \<le> e then 2 ^ nat e else 1 / 2 ^ nat (- e))"

definition pow10 :: "int \<Rightarrow> rat" where
  "pow10 e = (if 0 \<le> e then 10 ^ nat e else 1 / 10 ^ nat (- e))"

text \<open>The position of the leading bit of a positive natural number.\<close>

fun floor_log2 :: "nat \<Rightarrow> nat" where
  "floor_log2 n = (if n < 2 then 0 else Suc (floor_log2 (n div 2)))"

declare floor_log2.simps [simp del]

text \<open>The binade of a positive rational \<open>a\<close>: the \<open>b\<close> with \<open>2^b \<le> a < 2^(b+1)\<close>.\<close>

definition binade :: "rat \<Rightarrow> int" where
  "binade a =
     (if 1 \<le> a then int (floor_log2 (nat \<lfloor>a\<rfloor>))
      else - int (Suc (floor_log2 (nat (\<lceil>1 / a\<rceil> - 1)))))"

text \<open>The nearest integer, the even one on a tie.\<close>

definition round_half_even :: "rat \<Rightarrow> int" where
  "round_half_even x =
     (let f = \<lfloor>x\<rfloor>; d = x - of_int f
      in if d < 1 / 2 then f
         else if 1 / 2 < d then f + 1
         else if even f then f else f + 1)"

text \<open>
  The double nearest to a rational (round to nearest, ties to even, the default and only
  rounding of JavaScript). A double is \<open>m * 2^e\<close> with \<open>|m| < 2^53\<close> and \<open>e \<ge> -1074\<close>, below
  \<open>2^1024\<close> in magnitude: the significand keeps 53 bits from the leading bit of \<open>x\<close>, or
  the bits down to \<open>2^-1074\<close> for a subnormal, and a result that reaches \<open>2^1024\<close> is an
  infinity.
\<close>

definition round_double :: "rat \<Rightarrow> js_number" where
  "round_double x =
     (if x = 0 then Finite 0
      else
        (let a = \<bar>x\<bar>;
             e = max (binade a - 52) (- 1074);
             m = round_half_even (a / pow2 e);
             y = of_int m * pow2 e
         in if 2 ^ 1024 \<le> y then (if x < 0 then NegInfinity else PosInfinity)
            else Finite (if x < 0 then - y else y)))"

text \<open>
  IEEE-754 subtraction, the \<open>-\<close> operator of JavaScript on two numbers: the exact difference
  of two finite numbers, rounded to the nearest double.
\<close>

fun js_sub :: "js_number \<Rightarrow> js_number \<Rightarrow> js_number" where
  "js_sub NaN _ = NaN"
| "js_sub _ NaN = NaN"
| "js_sub (Finite a) (Finite b) = round_double (a - b)"
| "js_sub (Finite a) PosInfinity = NegInfinity"
| "js_sub (Finite a) NegInfinity = PosInfinity"
| "js_sub PosInfinity PosInfinity = NaN"
| "js_sub PosInfinity _ = PosInfinity"
| "js_sub NegInfinity NegInfinity = NaN"
| "js_sub NegInfinity _ = NegInfinity"

subsection \<open>Truthiness and trimming\<close>

text \<open>
  Truthiness (\<open>ToBoolean\<close>): a number is falsy when it is \<open>0\<close>, \<open>-0\<close> or \<open>NaN\<close>, a string
  when it is empty, and \<open>null\<close> and \<open>undefined\<close> always are.
\<close>

fun truthy_number :: "js_number js_opt \<Rightarrow> bool" where
  "truthy_number Null = False"
| "truthy_number Undefined = False"
| "truthy_number (Val NaN) = False"
| "truthy_number (Val (Finite r)) = (r \<noteq> 0)"
| "truthy_number (Val _) = True"

fun truthy_string :: "string js_opt \<Rightarrow> bool" where
  "truthy_string Null = False"
| "truthy_string Undefined = False"
| "truthy_string (Val s) = (s \<noteq> [])"

text \<open>
  \<open>String.prototype.trim\<close>: white space and line terminators are removed at both ends.
  Strings are lists of 8-bit characters here, so of the code units ECMAScript strips only
  TAB, LF, VT, FF, CR, SP and NBSP are representable.
\<close>

definition is_space :: "char \<Rightarrow> bool" where
  "is_space c = (of_char c \<in> {9, 10, 11, 12, 13, 32, 160 :: nat})"

definition trim :: "string \<Rightarrow> string" where
  "trim s = rev (dropWhile is_space (rev (dropWhile is_space s)))"

subsection \<open>Number::toString\<close>

definition digit_char :: "nat \<Rightarrow> char" where
  "digit_char d = ''0123456789'' ! d"

text \<open>The digits of the decimal representation of \<open>n\<close>, with no leading zeroes.\<close>

fun digits_of :: "nat \<Rightarrow> string" where
  "digits_of n =
     (if n < 10 then [digit_char n] else digits_of (n div 10) @ [digit_char (n mod 10)])"

declare digits_of.simps [simp del]

text \<open>The decade of a positive rational \<open>x\<close>: the \<open>n\<close> with \<open>10^(n-1) \<le> x < 10^n\<close>.\<close>

definition decimal_exponent :: "rat \<Rightarrow> int" where
  "decimal_exponent x =
     (if 1 \<le> x then int (length (digits_of (nat \<lfloor>x\<rfloor>)))
      else
        (let m = int (length (digits_of (nat \<lfloor>1 / x\<rfloor>))) - 1
         in if x = pow10 (- m) then 1 - m else - m))"

text \<open>
  ECMAScript asks for integers \<open>n\<close>, \<open>k\<close> and \<open>s\<close> with \<open>k\<close> digits in \<open>s\<close>, such that
  \<open>s * 10^(n-k)\<close> reads back as the double \<open>x\<close> and \<open>k\<close> is as small as possible, and
  recommends the \<open>s\<close> nearest to \<open>x\<close> where several fit (the even one of two equally near),
  as the engines do. For a given \<open>k\<close> the integers next to \<open>x / 10^(n-k)\<close> are the ones to
  try, the nearer first.
\<close>

definition digit_candidates :: "rat \<Rightarrow> int \<Rightarrow> nat \<Rightarrow> int list" where
  "digit_candidates x n k =
     (let c = x / pow10 (n - int k); lo = \<lfloor>c\<rfloor>; d = c - of_int lo
      in if d = 0 then [lo]
         else if d < 1 / 2 then [lo, lo + 1]
         else if 1 / 2 < d then [lo + 1, lo]
         else if even lo then [lo, lo + 1] else [lo + 1, lo])"

definition reads_back :: "rat \<Rightarrow> int \<Rightarrow> nat \<Rightarrow> int \<Rightarrow> bool" where
  "reads_back x n k s = (round_double (of_int s * pow10 (n - int k)) = Finite x)"

text \<open>
  The search for the least \<open>k\<close>, from \<open>k\<close> upwards. Seventeen digits identify every double,
  so the search is started with \<open>k = 1\<close> and sixteen further steps; when the steps are used
  up the nearest \<open>s\<close> is taken.
\<close>

fun shortest_digits :: "rat \<Rightarrow> int \<Rightarrow> nat \<Rightarrow> nat \<Rightarrow> int \<times> nat" where
  "shortest_digits x n k 0 = (hd (digit_candidates x n k), k)"
| "shortest_digits x n k (Suc steps) =
     (case filter (reads_back x n k) (digit_candidates x n k) of
        s # _ \<Rightarrow> (s, k)
      | [] \<Rightarrow> shortest_digits x n (Suc k) steps)"

definition strip_zeros :: "string \<Rightarrow> string" where
  "strip_zeros ds = rev (dropWhile (\<lambda>c. c = CHR ''0'') (rev ds))"

text \<open>
  \<open>Number::toString\<close> of a positive finite number, in radix 10: plain digits for
  \<open>k \<le> n \<le> 21\<close>, a decimal point inside for \<open>0 < n \<le> 21\<close>, leading zeroes for
  \<open>-6 < n \<le> 0\<close>, and exponential notation otherwise. An \<open>s\<close> that reached \<open>10^k\<close> stands
  for the next decade, so \<open>n\<close> is counted from the digits found.
\<close>

definition positive_toString :: "rat \<Rightarrow> string" where
  "positive_toString x =
     (let n0 = decimal_exponent x;
          (s, k0) = shortest_digits x n0 1 16;
          all_digits = digits_of (nat s);
          n = n0 - int k0 + int (length all_digits);
          ds = strip_zeros all_digits;
          k = int (length ds)
      in if - 5 \<le> n \<and> n \<le> 21 then
           (if k \<le> n then ds @ replicate (nat (n - k)) (CHR ''0'')
            else if 0 < n then take (nat n) ds @ ''.'' @ drop (nat n) ds
            else ''0.'' @ replicate (nat (- n)) (CHR ''0'') @ ds)
         else
           (let e = n - 1;
                exponent = (if e < 0 then ''-'' else ''+'') @ digits_of (nat \<bar>e\<bar>)
            in if k = 1 then ds @ ''e'' @ exponent
               else take 1 ds @ ''.'' @ drop 1 ds @ ''e'' @ exponent))"

fun number_toString :: "js_number \<Rightarrow> string" where
  "number_toString NaN = ''NaN''"
| "number_toString PosInfinity = ''Infinity''"
| "number_toString NegInfinity = ''-Infinity''"
| "number_toString (Finite x) =
     (if x = 0 then ''0''
      else if x < 0 then ''-'' @ positive_toString (- x)
      else positive_toString x)"

subsection \<open>Number.prototype.toFixed\<close>

text \<open>
  \<open>x.toFixed(f)\<close>, following the steps of ECMAScript: a RangeError when \<open>f\<close> is outside
  \<open>0..100\<close>; \<open>Number::toString\<close> for a non-finite \<open>x\<close>; the sign is split off; for
  \<open>x \<ge> 10^21\<close> the result is \<open>Number::toString(x)\<close>; otherwise \<open>n\<close> is the integer nearest
  to \<open>x * 10^f\<close> (the larger one on a tie), its digits are padded with zeroes to \<open>f + 1\<close>
  characters and the point is put before the last \<open>f\<close> of them.
\<close>

definition toFixed :: "js_number \<Rightarrow> int \<Rightarrow> js_error + string" where
  "toFixed x f =
     (if f < 0 \<or> 100 < f then Inl RangeError
      else case x of
        NaN \<Rightarrow> Inr (number_toString NaN)
      | PosInfinity \<Rightarrow> Inr (number_toString PosInfinity)
      | NegInfinity \<Rightarrow> Inr (number_toString NegInfinity)
      | Finite r \<Rightarrow>
          (let s = (if r < 0 then ''-'' else '''');
               x = (if r < 0 then - r else r)
           in if 10 ^ 21 \<le> x then Inr (s @ number_toString (Finite x))
              else
                (let n = nat \<lfloor>x * 10 ^ nat f + 1 / 2\<rfloor>;
                     m = digits_of n;
                     m = (if f \<noteq> 0
                          then (let k = length m;
                                    m = (if k \<le> nat f
                                         then replicate (nat f + 1 - k) (CHR ''0'') @ m else m);
                                    k = (if k \<le> nat f then nat f + 1 else k);
                                    a = take (k - nat f) m;
                                    b = drop (k - nat f) m
                                in a @ ''.'' @ b)
                          else m)
                 in Inr (s @ m))))"

subsection \<open>utils/formatters.ts\<close>

definition formatPrice :: "js_number js_opt \<Rightarrow> js_error + string" where
  "formatPrice price =
     (case price of
        Null \<Rightarrow> Inr ''N/A''
      | Undefined \<Rightarrow> Inr ''N/A''
      | Val p \<Rightarrow> (case toFixed p 2 of
                    Inl e \<Rightarrow> Inl e
                  | Inr s \<Rightarrow> Inr (''$'' @ s)))"

text \<open>
  What "\<open>p\<close> rendered with exactly two decimal places" denotes: the sign, the integer part
  of \<open>|p|\<close> rounded to hundredths (half up), a point, and the two digits of the hundredths.
\<close>

definition render_two_decimals :: "rat \<Rightarrow> string" where
  "render_two_decimals p =
     (let n = nat \<lfloor>\<bar>p\<bar> * 100 + 1 / 2\<rfloor>
      in (if p < 0 then ''-'' else '''') @ digits_of (n div 100) @ ''.'' @
         [digit_char (n div 10 mod 10), digit_char (n mod 10)])"

text \<open>A string that ends in a point followed by exactly two decimal digits.\<close>

definition is_digit :: "char \<Rightarrow> bool" where
  "is_digit c = (c \<in> set ''0123456789'')"

definition two_decimal_form :: "string \<Rightarrow> bool" where
  "two_decimal_form s =
     (3 \<le> length s \<and> s ! (length s - 3) = CHR ''.'' \<and>
      is_digit (s ! (length s - 2)) \<and> is_digit (s ! (length s - 1)))"

section \<open>The query-service boundary as the dashboard declares it\<close>

subsection \<open>Response values and declared types (types/index.ts)\<close>

text \<open>
  \<open>response.data\<close> is the value \<open>JSON.parse\<close> returns: null, a number, a string, a boolean,
  an array, or an object. An object is an association list; a property is read with
  \<open>map_of\<close>.
\<close>

datatype json =
    JNull
  | JNumber js_number
  | JString string
  | JBool bool
  | JArray "json list"
  | JObject "(string \<times> json) list"

text \<open>
  The TypeScript types the interfaces are written in: \<open>number\<close>, \<open>string\<close>, \<open>null\<close>,
  a union \<open>A | B\<close>, an array \<open>T[]\<close>, an interface (its properties in order), and the type
  of an optional property \<open>name?: T\<close>.
\<close>

datatype ts_type =
    TNumber
  | TString
  | TNull
  | TUnion ts_type ts_type
  | TArray ts_type
  | TOptional ts_type
  | TInterface "(string \<times> ts_type) list"

fun is_optional :: "ts_type \<Rightarrow> bool" where
  "is_optional (TOptional _) = True"
| "is_optional _ = False"

text \<open>
  A value has a declared type when it has the shape the type describes. An interface asks
  for each of its properties (an optional one may be absent) and allows further ones.
\<close>

fun conforms :: "ts_type \<Rightarrow> json \<Rightarrow> bool" where
  "conforms TNumber j = (case j of JNumber _ \<Rightarrow> True | _ \<Rightarrow> False)"
| "conforms TString j = (case j of JString _ \<Rightarrow> True | _ \<Rightarrow> False)"
| "conforms TNull j = (case j of JNull \<Rightarrow> True | _ \<Rightarrow> False)"
| "conforms (TUnion a b) j = (conforms a j \<or> conforms b j)"
| "conforms (TArray t) j = (case j of JArray js \<Rightarrow> list_all (conforms t) js | _ \<Rightarrow> False)"
| "conforms (TOptional t) j = conforms t j"
| "conforms (TInterface fs) j =
     (case j of
        JObject kv \<Rightarrow>
          list_all (\<lambda>(name, t). case map_of kv name of
                                    None \<Rightarrow> is_optional t
                                  | Some v \<Rightarrow> conforms t v) fs
      | _ \<Rightarrow> False)"

definition nullable :: "ts_type \<Rightarrow> ts_type" where
  "nullable t = TUnion t TNull"

definition Book_t :: ts_type where
  "Book_t = TInterface
     [(''id'', TNumber),
      (''isbn'', TString),
      (''title'', nullable TString),
      (''author'', nullable TString),
      (''packt_price'', nullable TNumber),
      (''packt_url'', nullable TString),
      (''last_updated'', nullable TString),
      (''created_at'', nullable TString)]"

definition BookListResponse_t :: ts_type where
  "BookListResponse_t = TInterface
     [(''books'', TArray Book_t),
      (''total'', TNumber),
      (''page'', TNumber),
      (''limit'', TNumber),
      (''total_pages'', TNumber)]"

definition PriceHistory_t :: ts_type where
  "PriceHistory_t = TInterface
     [(''id'', TNumber),
      (''book_id'', TNumber),
      (''source'', TString),
      (''price'', nullable TNumber),
      (''timestamp'', TString)]"

definition Alert_t :: ts_type where
  "Alert_t = TInterface
     [(''id'', TNumber),
      (''book_id'', TNumber),
      (''book'', TOptional Book_t),
      (''threshold_type'', TString),
      (''threshold_value'', TNumber),
      (''packt_price'', TNumber),
      (''third_party_price'', TNumber),
      (''third_party_source'', TString),
      (''notified_at'', TString),
      (''status'', TString)]"

definition AlertListResponse_t :: ts_type where
  "AlertListResponse_t = TInterface
     [(''alerts'', TArray Alert_t),
      (''total'', TNumber),
      (''page'', TNumber),
      (''limit'', TNumber),
      (''total_pages'', TNumber)]"

definition DashboardStats_t :: ts_type where
  "DashboardStats_t = TInterface
     [(''total_books'', TNumber),
      (''active_alerts'', TNumber),
      (''average_price_difference'', nullable TNumber),
      (''total_savings_opportunity'', nullable TNumber),
      (''books_with_alerts'', TNumber),
      (''total_catalog_value'', nullable TNumber),
      (''min_price'', nullable TNumber),
      (''max_price'', nullable TNumber),
      (''average_price'', nullable TNumber),
      (''books_missing_authors'', TNumber),
      (''books_missing_urls'', TNumber),
      (''books_without_price_history'', TNumber),
      (''data_completeness_percentage'', nullable TNumber)]"

definition PriceTrendDataPoint_t :: ts_type where
  "PriceTrendDataPoint_t = TInterface
     [(''date'', TString),
      (''packt_price'', nullable TNumber),
      (''third_party_price'', nullable TNumber),
      (''difference'', nullable TNumber)]"

definition PriceTrendsResponse_t :: ts_type where
  "PriceTrendsResponse_t = TInterface
     [(''trends'', TArray PriceTrendDataPoint_t),
      (''date_from'', nullable TString),
      (''date_to'', nullable TString)]"

definition ComparisonStats_t :: ts_type where
  "ComparisonStats_t = TInterface
     [(''total_comparisons'', TNumber),
      (''packt_cheaper'', TNumber),
      (''third_party_cheaper'', TNumber),
      (''average_difference'', nullable TNumber)]"

definition SyncStatus_t :: ts_type where
  "SyncStatus_t = TInterface
     [(''last_sync_time'', nullable TString),
      (''last_sync_hash'', nullable TString),
      (''rows_processed'', TNumber),
      (''rows_inserted'', TNumber),
      (''rows_updated'', TNumber),
      (''filename'', nullable TString)]"

definition SyncHistory_t :: ts_type where
  "SyncHistory_t = TInterface
     [(''id'', TNumber),
      (''filename'', TString),
      (''last_processed_time'', TString),
      (''rows_processed'', TNumber),
      (''rows_inserted'', TNumber),
      (''rows_updated'', TNumber)]"

definition SyncHistoryListResponse_t :: ts_type where
  "SyncHistoryListResponse_t = TInterface
     [(''history'', TArray SyncHistory_t),
      (''total'', TNumber)]"

definition PriceBucket_t :: ts_type where
  "PriceBucket_t = TInterface
     [(''range'', TString),
      (''count'', TNumber),
      (''percentage'', TNumber)]"

definition PriceDistributionResponse_t :: ts_type where
  "PriceDistributionResponse_t = TInterface
     [(''buckets'', TArray PriceBucket_t),
      (''total_books'', TNumber)]"

definition DataQualityResponse_t :: ts_type where
  "DataQualityResponse_t = TInterface
     [(''total_books'', TNumber),
      (''books_missing_authors'', TNumber),
      (''books_missing_urls'', TNumber),
      (''books_missing_prices'', TNumber),
      (''books_without_price_history'', TNumber),
      (''books_stale'', TNumber),
      (''data_completeness_percentage'', TNumber),
      (''books_needing_attention'', TArray Book_t)]"

definition ActivityDataPoint_t :: ts_type where
  "ActivityDataPoint_t = TInterface
     [(''date'', TString),
      (''books_added'', TNumber),
      (''books_updated'', TNumber),
      (''total_changes'', TNumber)]"

definition RecentActivityResponse_t :: ts_type where
  "RecentActivityResponse_t = TInterface
     [(''activity'', TArray ActivityDataPoint_t),
      (''date_from'', nullable TString),
      (''date_to'', nullable TString)]"

text \<open>
  The five-tuple of a paginated listing: an array of items under some property, and the
  numbers \<open>total\<close>, \<open>page\<close>, \<open>limit\<close> and \<open>total_pages\<close>.
\<close>

definition is_number :: "json option \<Rightarrow> bool" where
  "is_number v = (case v of Some (JNumber _) \<Rightarrow> True | _ \<Rightarrow> False)"

definition is_array :: "json option \<Rightarrow> bool" where
  "is_array v = (case v of Some (JArray _) \<Rightarrow> True | _ \<Rightarrow> False)"

definition five_tuple :: "string \<Rightarrow> json \<Rightarrow> bool" where
  "five_tuple items j =
     (case j of
        JObject kv \<Rightarrow>
          is_array (map_of kv items) \<and> is_number (map_of kv ''total'') \<and>
          is_number (map_of kv ''page'') \<and> is_number (map_of kv ''limit'') \<and>
          is_number (map_of kv ''total_pages'')
      | _ \<Rightarrow> False)"

text \<open>The two-tuple of the sync-history listing: the items and their total count.\<close>

definition items_and_total :: "string \<Rightarrow> json \<Rightarrow> bool" where
  "items_and_total items j =
     (case j of
        JObject kv \<Rightarrow> is_array (map_of kv items) \<and> is_number (map_of kv ''total'')
      | _ \<Rightarrow> False)"

definition has_property :: "string \<Rightarrow> json \<Rightarrow> bool" where
  "has_property name j = (case j of JObject kv \<Rightarrow> map_of kv name \<noteq> None | _ \<Rightarrow> False)"

text \<open>Reading a property of an object.\<close>

definition property :: "string \<Rightarrow> json \<Rightarrow> json option" where
  "property name j = (case j of JObject kv \<Rightarrow> map_of kv name | _ \<Rightarrow> None)"

text \<open>The attributes of a Book other than its keys: title, author, tracked price, source
  URL and last-updated timestamp.\<close>

definition book_nullable_fields :: "string list" where
  "book_nullable_fields =
     [''title'', ''author'', ''packt_price'', ''packt_url'', ''last_updated'']"

text \<open>Setting properties of an object to \<open>null\<close>.\<close>

definition set_null :: "string list \<Rightarrow> json \<Rightarrow> json" where
  "set_null names j =
     (case j of JObject kv \<Rightarrow> JObject (map (\<lambda>n. (n, JNull)) names @ kv) | _ \<Rightarrow> j)"

subsection \<open>The API client (services/api.ts)\<close>

datatype http_verb = GET | POST | PUT | PATCH | DELETE

text \<open>A piece of a URL template literal: literal text, or an interpolated argument.\<close>

datatype url_part = Lit string | StrArg string | NumArg js_number

datatype param = PNum js_number | PStr string | PBool bool

record request =
  verb :: http_verb
  url :: "url_part list"
  query :: "(string \<times> param js_opt) list"
  response_type :: ts_type

text \<open>An argument with a default value: the default stands in when it is left out.\<close>

definition with_default :: "js_number \<Rightarrow> js_number option \<Rightarrow> js_number" where
  "with_default d arg = (case arg of None \<Rightarrow> d | Some v \<Rightarrow> v)"

definition opt_param :: "js_number option \<Rightarrow> param js_opt" where
  "opt_param arg = (case arg of None \<Rightarrow> Undefined | Some v \<Rightarrow> Val (PNum v))"

definition booksAPI_list :: "(string \<times> param js_opt) list \<Rightarrow> request" where
  "booksAPI_list params =
     \<lparr>verb = GET, url = [Lit ''/api/books''], query = params,
      response_type = BookListResponse_t\<rparr>"

definition booksAPI_getByISBN :: "string \<Rightarrow> request" where
  "booksAPI_getByISBN isbn =
     \<lparr>verb = GET, url = [Lit ''/api/books/'', StrArg isbn], query = [],
      response_type = Book_t\<rparr>"

definition booksAPI_getPriceHistory :: "js_number \<Rightarrow> js_number option \<Rightarrow> request" where
  "booksAPI_getPriceHistory bookId limit =
     \<lparr>verb = GET, url = [Lit ''/api/books/'', NumArg bookId, Lit ''/price-history''],
      query = [(''limit'', Val (PNum (with_default (Finite 100) limit)))],
      response_type = TArray PriceHistory_t\<rparr>"

definition alertsAPI_list :: "(string \<times> param js_opt) list \<Rightarrow> request" where
  "alertsAPI_list params =
     \<lparr>verb = GET, url = [Lit ''/api/alerts''], query = params,
      response_type = AlertListResponse_t\<rparr>"

definition alertsAPI_getActive :: "js_number option \<Rightarrow> js_number option \<Rightarrow> request" where
  "alertsAPI_getActive page limit =
     \<lparr>verb = GET, url = [Lit ''/api/alerts/active''],
      query = [(''page'', Val (PNum (with_default (Finite 1) page))),
               (''limit'', Val (PNum (with_default (Finite 50) limit)))],
      response_type = AlertListResponse_t\<rparr>"

definition alertsAPI_get :: "js_number \<Rightarrow> request" where
  "alertsAPI_get alertId =
     \<lparr>verb = GET, url = [Lit ''/api/alerts/'', NumArg alertId], query = [],
      response_type = Alert_t\<rparr>"

definition alertsAPI_acknowledge :: "js_number \<Rightarrow> request" where
  "alertsAPI_acknowledge alertId =
     \<lparr>verb = POST, url = [Lit ''/api/alerts/'', NumArg alertId, Lit ''/acknowledge''],
      query = [], response_type = Alert_t\<rparr>"

definition statsAPI_getDashboard :: request where
  "statsAPI_getDashboard =
     \<lparr>verb = GET, url = [Lit ''/api/stats/dashboard''], query = [],
      response_type = DashboardStats_t\<rparr>"

definition statsAPI_getPriceTrends :: "js_number option \<Rightarrow> js_number option \<Rightarrow> request" where
  "statsAPI_getPriceTrends days bookId =
     \<lparr>verb = GET, url = [Lit ''/api/stats/price-trends''],
      query = [(''days'', Val (PNum (with_default (Finite 30) days))),
               (''book_id'', opt_param bookId)],
      response_type = PriceTrendsResponse_t\<rparr>"

definition statsAPI_getComparison :: request where
  "statsAPI_getComparison =
     \<lparr>verb = GET, url = [Lit ''/api/stats/comparison''], query = [],
      response_type = ComparisonStats_t\<rparr>"

definition statsAPI_getPriceDistribution :: request where
  "statsAPI_getPriceDistribution =
     \<lparr>verb = GET, url = [Lit ''/api/stats/price-distribution''], query = [],
      response_type = PriceDistributionResponse_t\<rparr>"

definition statsAPI_getDataQuality :: request where
  "statsAPI_getDataQuality =
     \<lparr>verb = GET, url = [Lit ''/api/stats/data-quality''], query = [],
      response_type = DataQualityResponse_t\<rparr>"

definition statsAPI_getRecentActivity :: "js_number option \<Rightarrow> request" where
  "statsAPI_getRecentActivity days =
     \<lparr>verb = GET, url = [Lit ''/api/stats/recent-activity''],
      query = [(''days'', Val (PNum (with_default (Finite 30) days)))],
      response_type = RecentActivityResponse_t\<rparr>"

definition syncAPI_getStatus :: request where
  "syncAPI_getStatus =
     \<lparr>verb = GET, url = [Lit ''/api/sync/status''], query = [],
      response_type = SyncStatus_t\<rparr>"

definition syncAPI_getHistory :: "js_number option \<Rightarrow> request" where
  "syncAPI_getHistory limit =
     \<lparr>verb = GET, url = [Lit ''/api/sync/history''],
      query = [(''limit'', Val (PNum (with_default (Finite 50) limit)))],
      response_type = SyncHistoryListResponse_t\<rparr>"

text \<open>Every call the client exports, with its arguments, and the request it issues.\<close>

datatype api_call =
    Books_list "(string \<times> param js_opt) list"
  | Books_getByISBN string
  | Books_getPriceHistory js_number "js_number option"
  | Alerts_list "(string \<times> param js_opt) list"
  | Alerts_getActive "js_number option" "js_number option"
  | Alerts_get js_number
  | Alerts_acknowledge js_number
  | Stats_getDashboard
  | Stats_getPriceTrends "js_number option" "js_number option"
  | Stats_getComparison
  | Stats_getPriceDistribution
  | Stats_getDataQuality
  | Stats_getRecentActivity "js_number option"
  | Sync_getStatus
  | Sync_getHistory "js_number option"

fun issue :: "api_call \<Rightarrow> request" where
  "issue (Books_list params) = booksAPI_list params"
| "issue (Books_getByISBN isbn) = booksAPI_getByISBN isbn"
| "issue (Books_getPriceHistory bookId limit) = booksAPI_getPriceHistory bookId limit"
| "issue (Alerts_list params) = alertsAPI_list params"
| "issue (Alerts_getActive page limit) = alertsAPI_getActive page limit"
| "issue (Alerts_get alertId) = alertsAPI_get alertId"
| "issue (Alerts_acknowledge alertId) = alertsAPI_acknowledge alertId"
| "issue Stats_getDashboard = statsAPI_getDashboard"
| "issue (Stats_getPriceTrends days bookId) = statsAPI_getPriceTrends days bookId"
| "issue Stats_getComparison = statsAPI_getComparison"
| "issue Stats_getPriceDistribution = statsAPI_getPriceDistribution"
| "issue Stats_getDataQuality = statsAPI_getDataQuality"
| "issue (Stats_getRecentActivity days) = statsAPI_getRecentActivity days"
| "issue Sync_getStatus = syncAPI_getStatus"
| "issue (Sync_getHistory limit) = syncAPI_getHistory limit"

text \<open>
  A request reads when its verb is GET; it changes state when its verb is one of the
  writing verbs of HTTP.
\<close>

definition is_read :: "request \<Rightarrow> bool" where
  "is_read r = (verb r = GET)"

definition is_write :: "request \<Rightarrow> bool" where
  "is_write r = (verb r \<in> {POST, PUT, PATCH, DELETE})"

text \<open>
  The hooks (hooks/useBooks.ts, hooks/useStats.ts, hooks/useAlerts.ts): each wraps one
  call in a query, but for \<open>useAcknowledgeAlert\<close>, which wraps it in a mutation.
\<close>

datatype hook_kind = Query | Mutation

datatype hook =
    useBooks "(string \<times> param js_opt) list"
  | useBook string
  | usePriceHistory js_number "js_number option"
  | useDashboardStats
  | usePriceTrends "js_number option" "js_number option"
  | useComparisonStats
  | usePriceDistribution
  | useDataQuality
  | useRecentActivity "js_number option"
  | useAlerts "(string \<times> param js_opt) list"
  | useActiveAlerts "js_number option" "js_number option"
  | useAlert js_number
  | useAcknowledgeAlert js_number

fun hook_call :: "hook \<Rightarrow> hook_kind \<times> api_call" where
  "hook_call (useBooks params) = (Query, Books_list params)"
| "hook_call (useBook isbn) = (Query, Books_getByISBN isbn)"
| "hook_call (usePriceHistory bookId limit) =
     (Query, Books_getPriceHistory bookId (Some (with_default (Finite 100) limit)))"
| "hook_call useDashboardStats = (Query, Stats_getDashboard)"
| "hook_call (usePriceTrends days bookId) =
     (Query, Stats_getPriceTrends (Some (with_default (Finite 30) days)) bookId)"
| "hook_call useComparisonStats = (Query, Stats_getComparison)"
| "hook_call usePriceDistribution = (Query, Stats_getPriceDistribution)"
| "hook_call useDataQuality = (Query, Stats_getDataQuality)"
| "hook_call (useRecentActivity days) =
     (Query, Stats_getRecentActivity (Some (with_default (Finite 30) days)))"
| "hook_call (useAlerts params) = (Query, Alerts_list params)"
| "hook_call (useActiveAlerts page limit) =
     (Query, Alerts_getActive (Some (with_default (Finite 1) page))
        (Some (with_default (Finite 50) limit)))"
| "hook_call (useAlert alertId) = (Query, Alerts_get alertId)"
| "hook_call (useAcknowledgeAlert alertId) = (Mutation, Alerts_acknowledge alertId)"

subsection \<open>Typed records the components read\<close>

text \<open>
  \<open>Book\<close> and \<open>Alert\<close> as the components receive them. A property declared \<open>T | null\<close> is
  a \<open>js_opt\<close>: a response that leaves the property out reads as \<open>undefined\<close>.
  Field names are global, so the \<open>id\<close> of a Book is written \<open>id'\<close>, and the \<open>id\<close> and
  \<open>packt_price\<close> of an Alert are written \<open>alert_id\<close> and \<open>alert_packt_price\<close>.
\<close>

record Book =
  id' :: js_number
  isbn :: string
  title :: "string js_opt"
  author :: "string js_opt"
  packt_price :: "js_number js_opt"
  packt_url :: "string js_opt"
  last_updated :: "string js_opt"
  created_at :: "string js_opt"

record Alert =
  alert_id :: js_number
  book_id :: js_number
  book :: "Book js_opt"
  threshold_type :: string
  threshold_value :: js_number
  alert_packt_price :: js_number
  third_party_price :: js_number
  third_party_source :: string
  notified_at :: string
  status :: string

subsection \<open>pages/Books.tsx and components/dashboard/BooksNeedingAttention.tsx\<close>

text \<open>\<open>!s || s.trim() === ''\<close> for a property \<open>s\<close> of type \<open>string | null\<close>.\<close>

definition blank :: "string js_opt \<Rightarrow> bool" where
  "blank s = (\<not> truthy_string s \<or> (case s of Val v \<Rightarrow> trim v = [] | _ \<Rightarrow> False))"

definition getAttentionIssues :: "Book \<Rightarrow> string list" where
  "getAttentionIssues b =
     (let issues = [];
          issues = (if blank (author b) then issues @ [''Missing Author''] else issues);
          issues = (if blank (packt_url b) then issues @ [''Missing URL''] else issues);
          issues = (if \<not> truthy_number (packt_price b)
                    then issues @ [''Missing Price''] else issues)
      in issues)"

record issue_groups =
  missing_author :: "Book list"
  missing_url :: "Book list"
  missing_price :: "Book list"

text \<open>The body of the \<open>forEach\<close> that groups the books by issue, and the loop.\<close>

definition group_book :: "issue_groups \<Rightarrow> Book \<Rightarrow> issue_groups" where
  "group_book g b =
     (let g = (if blank (author b) then g\<lparr>missing_author := missing_author g @ [b]\<rparr> else g);
          g = (if blank (packt_url b) then g\<lparr>missing_url := missing_url g @ [b]\<rparr> else g);
          g = (if \<not> truthy_number (packt_price b)
               then g\<lparr>missing_price := missing_price g @ [b]\<rparr> else g)
      in g)"

definition booksByIssue :: "Book list \<Rightarrow> issue_groups" where
  "booksByIssue books_needing_attention =
     foldl group_book \<lparr>missing_author = [], missing_url = [], missing_price = []\<rparr>
       books_needing_attention"

subsection \<open>pages/Alerts.tsx and components/dashboard/RecentAlerts.tsx\<close>

text \<open>The "Savings" cell of an alert card, and the "Save:" span of a recent alert.\<close>

definition Alerts_savings :: "Alert \<Rightarrow> js_error + string" where
  "Alerts_savings alert =
     formatPrice (Val (js_sub (alert_packt_price alert) (third_party_price alert)))"

definition RecentAlerts_save :: "Alert \<Rightarrow> js_error + string" where
  "RecentAlerts_save alert =
     (case formatPrice (Val (js_sub (alert_packt_price alert) (third_party_price alert))) of
        Inl e \<Rightarrow> Inl e
      | Inr s \<Rightarrow> Inr (''Save: '' @ s))"

subsection \<open>The line of a book in components/dashboard/BooksNeedingAttention.tsx\<close>

text \<open>The values an expression in braces can have here.\<close>

datatype js_value = VNull | VUndefined | VBool bool | VNumber js_number | VString string

text \<open>
  The text React puts on the page for an expression child: nothing for \<open>null\<close>,
  \<open>undefined\<close> and the booleans, the string itself, and for a number its \<open>Number::toString\<close>.
\<close>

fun render_child :: "js_value \<Rightarrow> string" where
  "render_child VNull = []"
| "render_child VUndefined = []"
| "render_child (VBool b) = []"
| "render_child (VNumber x) = number_toString x"
| "render_child (VString s) = s"

text \<open>
  The bullet U+2022 of the template literal is not an 8-bit character; it is written as
  the three bytes of its UTF-8 encoding.
\<close>

definition bullet :: string where
  "bullet = [CHR 0xE2, CHR 0x80, CHR 0xA2]"

text \<open>
  \<open>book.packt_price && ` (bullet) Price: ${formatPrice(book.packt_price)}`\<close>: the
  operator \<open>&&\<close> gives its left operand when that is falsy, and its right operand (which
  only then is evaluated) otherwise.
\<close>

definition price_or_falsy :: "Book \<Rightarrow> js_error + js_value" where
  "price_or_falsy b =
     (if truthy_number (packt_price b)
      then (case formatPrice (packt_price b) of
              Inl e \<Rightarrow> Inl e
            | Inr s \<Rightarrow> Inr (VString ('' '' @ bullet @ '' Price: '' @ s)))
      else (case packt_price b of
              Null \<Rightarrow> Inr VNull
            | Undefined \<Rightarrow> Inr VUndefined
            | Val x \<Rightarrow> Inr (VNumber x)))"

text \<open>
  The text of the paragraph under the title of a book: \<open>ISBN: \<close>, the ISBN, and the
  expression above. JSX drops the line break between the two expressions.
\<close>

definition attention_line :: "Book \<Rightarrow> js_error + string" where
  "attention_line b =
     (case price_or_falsy b of
        Inl e \<Rightarrow> Inl e
      | Inr v \<Rightarrow> Inr (''ISBN: '' @ isbn b @ render_child v))"

subsection \<open>What components/charts/PriceHistoryChart.tsx does with the response\<close>

fun truthy_json :: "json \<Rightarrow> bool" where
  "truthy_json JNull = False"
| "truthy_json (JBool b) = b"
| "truthy_json (JNumber n) = truthy_number (Val n)"
| "truthy_json (JString s) = (s \<noteq> [])"
| "truthy_json (JArray xs) = True"
| "truthy_json (JObject kv) = True"

text \<open>
  \<open>history.length === 0\<close>: an array and a string have a length, an object has the
  property \<open>length\<close> if the response gave it one, and everything else has none.
\<close>

fun length_is_zero :: "json \<Rightarrow> bool" where
  "length_is_zero (JArray xs) = (xs = [])"
| "length_is_zero (JString s) = (s = [])"
| "length_is_zero (JObject kv) = (map_of kv ''length'' = Some (JNumber (Finite 0)))"
| "length_is_zero _ = False"

text \<open>
  The chart, once loaded, on the data of the price-history query: with no data, or data
  of length 0, it shows that there is no price history; otherwise it calls
  \<open>history.forEach\<close>, which runs over the entries of an array and is a TypeError on
  anything else, for nothing else has a function \<open>forEach\<close>.
\<close>

datatype chart_reading = NoPriceHistory | Iterates "json list" | ThrowsTypeError

definition PriceHistoryChart_reading :: "json js_opt \<Rightarrow> chart_reading" where
  "PriceHistoryChart_reading history =
     (case history of
        Null \<Rightarrow> NoPriceHistory
      | Undefined \<Rightarrow> NoPriceHistory
      | Val j \<Rightarrow>
          if \<not> truthy_json j \<or> length_is_zero j then NoPriceHistory
          else (case j of JArray entries \<Rightarrow> Iterates entries | _ \<Rightarrow> ThrowsTypeError))"

section \<open>The pipeline behind the boundary\<close>

text \<open>
  The README names three parts of the repository: the Python pipeline, the API service and
  the dashboard. Only the dashboard is among the source files, so the store, the watcher,
  the synchronizer, the comparator and the alert manager below are written from the
  specification (sections 3 and 4), each under a note that says so.
\<close>

subsection \<open>Persisted state (spec section 3)\<close>

type_synonym timestamp = nat

text \<open>Modelled from the spec: the status of an Alert row (the alerts table is not in src/),
  "one of pending-notification, sent, acknowledged, or failed".\<close>

datatype alert_status = PendingNotification | Sent | Acknowledged | Failed

text \<open>Modelled from the spec: the threshold policy of the configuration (the configuration
  loader is not in src/), "type: percentage|absolute, value: number".\<close>

datatype threshold_kind = Percentage | Absolute

record threshold_policy =
  policy_type :: threshold_kind
  policy_value :: rat

text \<open>Modelled from the spec: the recognized configuration options the comparator and the
  alert manager read (the configuration loader is not in src/): the threshold policy, the
  alert cooldown duration and the recency window of third-party observations.\<close>

record config =
  cfg_threshold :: threshold_policy
  cfg_cooldown :: nat
  cfg_recency :: nat

text \<open>Modelled from the spec: a row of the books table (the store is not in src/): the
  ISBN, and the optional title, author, tracked price, source URL and last-updated
  timestamp.\<close>

record book_row =
  bk_isbn :: string
  bk_title :: "string option"
  bk_author :: "string option"
  bk_tracked_price :: "rat option"
  bk_source_url :: "string option"
  bk_last_updated :: "string option"

text \<open>Modelled from the spec: a row of the append-only price_history table (the store is
  not in src/): book reference, source tag, price or null, observed-at timestamp.\<close>

record price_history_row =
  ph_book :: string
  ph_source :: string
  ph_price :: "rat option"
  ph_observed_at :: timestamp

text \<open>Modelled from the spec: a row of the alerts table (the store is not in src/): book
  reference, threshold type and value, tracked price at trigger, competing price,
  competing source, triggered-at timestamp, status. The identifier of an alert at the
  boundary is the position of its row in the table, which only grows.\<close>

record alert_row =
  al_book :: string
  al_threshold_type :: threshold_kind
  al_threshold_value :: rat
  al_tracked_price :: rat
  al_competing_price :: rat
  al_competing_source :: string
  al_triggered_at :: timestamp
  al_status :: alert_status

text \<open>Modelled from the spec: a row of the sync_history table (the store is not in src/):
  feed filename, processed-at timestamp, rows processed, inserted and updated.\<close>

record sync_history_row =
  sh_filename :: string
  sh_processed_at :: timestamp
  sh_rows_processed :: nat
  sh_rows_inserted :: nat
  sh_rows_updated :: nat

text \<open>Modelled from the spec: the persisted state layout (the store is not in src/): the
  four tables and the scalar "last accepted feed fingerprint".\<close>

record store =
  books :: "book_row list"
  price_history :: "price_history_row list"
  alerts :: "alert_row list"
  sync_history :: "sync_history_row list"
  last_fingerprint :: "string option"

text \<open>Modelled from the spec: the source tag of the tracked price in price_history (the
  synchronizer is not in src/); the dashboard's price chart reads the series \<open>packt\<close>.\<close>

definition tracked_source :: string where
  "tracked_source = ''packt''"

subsection \<open>Feed Watcher and Catalog Synchronizer (spec sections 4.1 and 4.3)\<close>

text \<open>Modelled from the spec: a validated record of the feed, the output of the parser
  (the parser is not in src/): the ISBN and the optional other columns.\<close>

record feed_record =
  fr_isbn :: string
  fr_title :: "string option"
  fr_author :: "string option"
  fr_price :: "rat option"
  fr_url :: "string option"
  fr_last_updated :: "string option"

text \<open>Modelled from the spec: the Book a feed record describes (the synchronizer is not
  in src/).\<close>

definition book_of_record :: "feed_record \<Rightarrow> book_row" where
  "book_of_record r =
     \<lparr>bk_isbn = fr_isbn r, bk_title = fr_title r, bk_author = fr_author r,
      bk_tracked_price = fr_price r, bk_source_url = fr_url r,
      bk_last_updated = fr_last_updated r\<rparr>"

text \<open>Modelled from the spec: the price_history row the synchronizer appends for a record
  (the synchronizer is not in src/), "tagged as the tracked-price source".\<close>

definition tracked_observation :: "timestamp \<Rightarrow> feed_record \<Rightarrow> price_history_row" where
  "tracked_observation now r =
     \<lparr>ph_book = fr_isbn r, ph_source = tracked_source, ph_price = fr_price r,
      ph_observed_at = now\<rparr>"

text \<open>Modelled from the spec: lookup of a Book by its ISBN (the store is not in src/).\<close>

definition find_book :: "string \<Rightarrow> book_row list \<Rightarrow> book_row option" where
  "find_book i bs = find (\<lambda>b. bk_isbn b = i) bs"

text \<open>Modelled from the spec: update of the Book with a given ISBN (the store is not in
  src/).\<close>

definition replace_book :: "book_row \<Rightarrow> book_row list \<Rightarrow> book_row list" where
  "replace_book b bs = map (\<lambda>x. if bk_isbn x = bk_isbn b then b else x) bs"

text \<open>Modelled from the spec: the synchronizer's step for one record (the synchronizer is
  not in src/). No Book with the ISBN: insert it and a tracked price_history row. A Book
  whose tracked price differs: update it and append a price_history row. A Book of which
  only other fields differ: update it. An unchanged record is a no-op and is not counted.
  The state carries the counts of inserted and updated rows.\<close>

definition sync_record :: "timestamp \<Rightarrow> store \<times> nat \<times> nat \<Rightarrow> feed_record \<Rightarrow> store \<times> nat \<times> nat" where
  "sync_record now acc r =
     (case acc of (st, inserted, updated) \<Rightarrow>
        (case find_book (fr_isbn r) (books st) of
           None \<Rightarrow>
             (st\<lparr>books := books st @ [book_of_record r],
                 price_history := price_history st @ [tracked_observation now r]\<rparr>,
              inserted + 1, updated)
         | Some b \<Rightarrow>
             if bk_tracked_price b \<noteq> fr_price r
             then (st\<lparr>books := replace_book (book_of_record r) (books st),
                       price_history := price_history st @ [tracked_observation now r]\<rparr>,
                   inserted, updated + 1)
             else if b \<noteq> book_of_record r
             then (st\<lparr>books := replace_book (book_of_record r) (books st)\<rparr>,
                   inserted, updated + 1)
             else (st, inserted, updated)))"

text \<open>Modelled from the spec: one run of the synchronizer over the validated records (the
  synchronizer is not in src/), ending with one sync_history row that holds the counts.\<close>

definition synchronize :: "string \<Rightarrow> timestamp \<Rightarrow> feed_record list \<Rightarrow> store \<Rightarrow> store \<times> nat \<times> nat" where
  "synchronize filename now records st =
     (case foldl (sync_record now) (st, 0, 0) records of
        (st', inserted, updated) \<Rightarrow>
          (st'\<lparr>sync_history := sync_history st' @
                 [\<lparr>sh_filename = filename, sh_processed_at = now,
                   sh_rows_processed = length records, sh_rows_inserted = inserted,
                   sh_rows_updated = updated\<rparr>]\<rparr>,
           inserted, updated))"

text \<open>Modelled from the spec: how a cycle ends (the watcher is not in src/): the feed was
  unreadable and the cycle skipped; the fingerprint was unchanged; the store failed and the
  cycle aborted; or the cycle completed, with its rows processed, inserted and updated.\<close>

datatype cycle_outcome = FeedUnreadable | Unchanged | Aborted | Completed nat nat nat

text \<open>Modelled from the spec: the rows a cycle inserted (the watcher is not in src/).\<close>

fun rows_inserted :: "cycle_outcome \<Rightarrow> nat" where
  "rows_inserted (Completed processed inserted updated) = inserted"
| "rows_inserted _ = 0"

text \<open>Modelled from the spec: the rows a cycle updated (the watcher is not in src/).\<close>

fun rows_updated :: "cycle_outcome \<Rightarrow> nat" where
  "rows_updated (Completed processed inserted updated) = updated"
| "rows_updated _ = 0"

text \<open>Modelled from the spec: one cycle of the watcher (the watcher is not in src/). The
  content fingerprint (a cryptographic hash), the parser (a pure function of the content,
  giving the validated records and the row defects) and the stages after the synchronizer
  (enricher, comparator, alert manager) are parameters. \<open>feed\<close> is the content read at this
  tick, or nothing when the feed is unreadable; \<open>store_ok\<close> says whether the store accepts
  the writes of this cycle. An unreadable feed skips the cycle. An unchanged fingerprint
  ends it with no further action. Otherwise the content is parsed and synchronized, the
  later stages run, and the new fingerprint is committed last; on a store failure nothing
  is committed, the fingerprint included.\<close>

definition run_cycle ::
  "(string \<Rightarrow> string) \<Rightarrow> (string \<Rightarrow> feed_record list \<times> (nat \<times> string) list) \<Rightarrow>
   (store \<Rightarrow> store) \<Rightarrow> string \<Rightarrow> timestamp \<Rightarrow> bool \<Rightarrow> string option \<Rightarrow> store \<Rightarrow>
   store \<times> cycle_outcome" where
  "run_cycle fingerprint parse later_stages filename now store_ok feed st =
     (case feed of
        None \<Rightarrow> (st, FeedUnreadable)
      | Some content \<Rightarrow>
          if last_fingerprint st = Some (fingerprint content) then (st, Unchanged)
          else if \<not> store_ok then (st, Aborted)
          else
            (case synchronize filename now (fst (parse content)) st of
               (st', inserted, updated) \<Rightarrow>
                 ((later_stages st')\<lparr>last_fingerprint := Some (fingerprint content)\<rparr>,
                  Completed (length (fst (parse content))) inserted updated)))"

subsection \<open>Price Comparator (spec section 4.5)\<close>

text \<open>Modelled from the spec: the comparator's delta (the comparator is not in src/),
  "delta = tracked_price - third_party_price".\<close>

definition price_delta :: "rat \<Rightarrow> rat \<Rightarrow> rat" where
  "price_delta tracked third = tracked - third"

text \<open>Modelled from the spec: the threshold test (the comparator is not in src/): the delta
  as a percentage of the tracked price, or the flat amount, "is met or exceeded".\<close>

definition threshold_met :: "threshold_policy \<Rightarrow> rat \<Rightarrow> rat \<Rightarrow> bool" where
  "threshold_met policy tracked delta =
     (case policy_type policy of
        Percentage \<Rightarrow> policy_value policy \<le> delta / tracked * 100
      | Absolute \<Rightarrow> policy_value policy \<le> delta)"

text \<open>Modelled from the spec: a crossing (the comparator is not in src/), "delta > 0 AND
  the relative or absolute threshold is met or exceeded".\<close>

definition is_crossing :: "threshold_policy \<Rightarrow> rat \<Rightarrow> rat \<Rightarrow> bool" where
  "is_crossing policy tracked third =
     (let delta = price_delta tracked third
      in 0 < delta \<and> threshold_met policy tracked delta)"

text \<open>Modelled from the spec: a candidate crossing handed to the alert manager (the
  comparator is not in src/): the (book, source) pair, the two prices, the policy and the
  time of the evaluation.\<close>

record crossing =
  cr_book :: string
  cr_source :: string
  cr_tracked_price :: rat
  cr_competing_price :: rat
  cr_policy :: threshold_policy
  cr_time :: timestamp

text \<open>Modelled from the spec: an observation the comparator considers for a book (the
  comparator is not in src/): of this book, "source \<noteq> tracked-price source, observed
  within a configured recency window".\<close>

definition third_party_recent :: "config \<Rightarrow> timestamp \<Rightarrow> book_row \<Rightarrow> price_history_row \<Rightarrow> bool" where
  "third_party_recent cfg now b obs =
     (ph_book obs = bk_isbn b \<and> ph_source obs \<noteq> tracked_source \<and>
      now \<le> ph_observed_at obs + cfg_recency cfg)"

text \<open>Modelled from the spec: the comparator on one book and one observation (the
  comparator is not in src/): a candidate crossing when the book has a tracked price, the
  observation is a recent third-party one with a price, and the delta crosses the
  threshold.\<close>

definition compare_observation ::
  "config \<Rightarrow> timestamp \<Rightarrow> book_row \<Rightarrow> price_history_row \<Rightarrow> crossing option" where
  "compare_observation cfg now b obs =
     (case (bk_tracked_price b, ph_price obs) of
        (Some tracked, Some third) \<Rightarrow>
          if third_party_recent cfg now b obs \<and> is_crossing (cfg_threshold cfg) tracked third
          then Some \<lparr>cr_book = bk_isbn b, cr_source = ph_source obs,
                     cr_tracked_price = tracked, cr_competing_price = third,
                     cr_policy = cfg_threshold cfg, cr_time = now\<rparr>
          else None
      | _ \<Rightarrow> None)"

subsection \<open>Alert Manager (spec section 4.6)\<close>

text \<open>Modelled from the spec: the alerts of a (book, source) pair (the alert manager is not
  in src/).\<close>

definition same_pair :: "string \<Rightarrow> string \<Rightarrow> alert_row \<Rightarrow> bool" where
  "same_pair b s a = (al_book a = b \<and> al_competing_source a = s)"

text \<open>Modelled from the spec: "the last trigger for that pair" (the alert manager is not in
  src/): the latest triggered-at timestamp among the alerts of the pair, if there is one.\<close>

definition last_trigger :: "alert_row list \<Rightarrow> string \<Rightarrow> string \<Rightarrow> timestamp option" where
  "last_trigger als b s =
     (case map al_triggered_at (filter (same_pair b s) als) of
        [] \<Rightarrow> None
      | t # ts \<Rightarrow> Some (fold max ts t))"

text \<open>Modelled from the spec: the cooldown of a pair is active (the alert manager is not in
  src/) until "the configured cooldown period has elapsed since the last trigger for that
  pair"; the status of the earlier alert plays no part.\<close>

definition cooldown_active :: "nat \<Rightarrow> alert_row list \<Rightarrow> string \<Rightarrow> string \<Rightarrow> timestamp \<Rightarrow> bool" where
  "cooldown_active cooldown als b s now =
     (case last_trigger als b s of
        None \<Rightarrow> False
      | Some t \<Rightarrow> now < t + cooldown)"

text \<open>Modelled from the spec: the Alert row of a crossing (the alert manager is not in
  src/): \<open>sent\<close> after the dispatch, or \<open>failed\<close> when the dispatch could not complete.\<close>

definition new_alert :: "bool \<Rightarrow> crossing \<Rightarrow> alert_row" where
  "new_alert dispatch_ok c =
     \<lparr>al_book = cr_book c, al_threshold_type = policy_type (cr_policy c),
      al_threshold_value = policy_value (cr_policy c),
      al_tracked_price = cr_tracked_price c, al_competing_price = cr_competing_price c,
      al_competing_source = cr_source c, al_triggered_at = cr_time c,
      al_status = (if dispatch_ok then Sent else Failed)\<rparr>"

text \<open>Modelled from the spec: the alert manager on a qualifying crossing (the alert manager
  is not in src/): with no active cooldown an Alert row is created and dispatched; within
  the cooldown the crossing is skipped silently.\<close>

definition on_crossing :: "nat \<Rightarrow> bool \<Rightarrow> crossing \<Rightarrow> alert_row list \<Rightarrow> alert_row list" where
  "on_crossing cooldown dispatch_ok c als =
     (if cooldown_active cooldown als (cr_book c) (cr_source c) (cr_time c) then als
      else als @ [new_alert dispatch_ok c])"

text \<open>Modelled from the spec: the comparator and the alert manager on one book and one
  observation (neither is in src/).\<close>

definition check_observation ::
  "config \<Rightarrow> timestamp \<Rightarrow> bool \<Rightarrow> book_row \<Rightarrow> price_history_row \<Rightarrow> alert_row list \<Rightarrow> alert_row list" where
  "check_observation cfg now dispatch_ok b obs als =
     (case compare_observation cfg now b obs of
        None \<Rightarrow> als
      | Some c \<Rightarrow> on_crossing (cfg_cooldown cfg) dispatch_ok c als)"

text \<open>Modelled from the spec: the acknowledge transition of the status (the alert manager
  is not in src/): \<open>sent\<close> and \<open>failed\<close> go to \<open>acknowledged\<close>, an acknowledged alert stays as
  it is, and (section 8) an acknowledged Alert is left in \<open>acknowledged\<close> whatever it was.\<close>

fun acknowledge_status :: "alert_status \<Rightarrow> alert_status" where
  "acknowledge_status Sent = Acknowledged"
| "acknowledge_status Failed = Acknowledged"
| "acknowledge_status Acknowledged = Acknowledged"
| "acknowledge_status PendingNotification = Acknowledged"

text \<open>Modelled from the spec: acknowledging an Alert row (the alert manager is not in
  src/).\<close>

definition acknowledge :: "alert_row \<Rightarrow> alert_row" where
  "acknowledge a = a\<lparr>al_status := acknowledge_status (al_status a)\<rparr>"

text \<open>Modelled from the spec: the only error of the alert-acknowledge action (the API
  service is not in src/): no alert has the identifier.\<close>

datatype ack_error = AlertNotFound

text \<open>Modelled from the spec: the alert-acknowledge action of the boundary (the API service
  is not in src/): the alert with the identifier is acknowledged in the table and
  returned.\<close>

definition acknowledge_alert :: "nat \<Rightarrow> alert_row list \<Rightarrow> ack_error + (alert_row list \<times> alert_row)" where
  "acknowledge_alert i als =
     (if i < length als
      then Inr (als[i := acknowledge (als ! i)], acknowledge (als ! i))
      else Inl AlertNotFound)"

text \<open>Modelled from the spec: what happens to the alerts table (the alert manager is not in
  src/): a qualifying crossing arrives, with the outcome of its dispatch, or an operator
  acknowledges an alert.\<close>

datatype alert_event = CrossingEvent bool crossing | AcknowledgeEvent nat

text \<open>Modelled from the spec: the alerts table after an event (the alert manager is not in
  src/); acknowledging an unknown identifier changes nothing.\<close>

fun apply_event :: "nat \<Rightarrow> alert_row list \<Rightarrow> alert_event \<Rightarrow> alert_row list" where
  "apply_event cooldown als (CrossingEvent dispatch_ok c) = on_crossing cooldown dispatch_ok c als"
| "apply_event cooldown als (AcknowledgeEvent i) =
     (case acknowledge_alert i als of Inl e \<Rightarrow> als | Inr (als', a) \<Rightarrow> als')"

text \<open>Modelled from the spec: the alerts table after a sequence of events (the alert
  manager is not in src/).\<close>

definition run_events :: "nat \<Rightarrow> alert_event list \<Rightarrow> alert_row list \<Rightarrow> alert_row list" where
  "run_events cooldown evs als = foldl (apply_event cooldown) als evs"

text \<open>Modelled from the spec: the alerts of a pair in \<open>sent\<close> state that were triggered in
  the window of one cooldown period starting at \<open>w\<close> (the alert manager is not in src/).\<close>

definition sent_in_window :: "nat \<Rightarrow> string \<Rightarrow> string \<Rightarrow> timestamp \<Rightarrow> alert_row list \<Rightarrow> alert_row list" where
  "sent_in_window cooldown b s w als =
     filter (\<lambda>a. same_pair b s a \<and> al_status a = Sent \<and>
                 w \<le> al_triggered_at a \<and> al_triggered_at a < w + cooldown) als"

text \<open>Modelled from the spec: the number of Alert rows of a pair (the alert manager is not
  in src/).\<close>

definition pair_count :: "string \<Rightarrow> string \<Rightarrow> alert_row list \<Rightarrow> nat" where
  "pair_count b s als = length (filter (same_pair b s) als)"

section \<open>The cooldown invariant\<close>

text \<open>What the cooldown reads of an alert: its pair and its trigger time.\<close>

definition trigger_key :: "alert_row \<Rightarrow> string \<times> string \<times> timestamp" where
  "trigger_key a = (al_book a, al_competing_source a, al_triggered_at a)"

text \<open>
  The alerts of a table are separated when, of any two alerts of one pair, the later row
  was triggered at least one cooldown period after the earlier row.
\<close>

definition separated :: "nat \<Rightarrow> alert_row list \<Rightarrow> bool" where
  "separated cooldown als =
     sorted_wrt (\<lambda>a a'. al_book a = al_book a' \<and> al_competing_source a = al_competing_source a' \<longrightarrow>
                        al_triggered_at a + cooldown \<le> al_triggered_at a') als"

section \<open>Example values\<close>

text \<open>An alert as the alert listing returns it: tracked price 29.75, competing price 21.\<close>

definition example_alert :: Alert where
  "example_alert =
     \<lparr>alert_id = Finite 1, book_id = Finite 7, book = Undefined,
      threshold_type = ''absolute'', threshold_value = Finite 5,
      alert_packt_price = Finite (119 / 4), third_party_price = Finite 21,
      third_party_source = ''amazon'', notified_at = ''2024-01-15T10:00:00'',
      status = ''sent''\<rparr>"

text \<open>A complete book whose tracked price is exactly 0.\<close>

definition free_book :: Book where
  "free_book =
     \<lparr>id' = Finite 3, isbn = ''9780134685991'', title = Val ''Effective Python'',
      author = Val ''Brett Slatkin'', packt_price = Val (Finite 0),
      packt_url = Val ''https://packtpub.com/effective-python'',
      last_updated = Val ''2024-01-15'', created_at = Null\<rparr>"

text \<open>A Book as the book lookup returns it.\<close>

definition example_book_json :: json where
  "example_book_json = JObject
     [(''id'', JNumber (Finite 3)), (''isbn'', JString ''9780134685991''),
      (''title'', JString ''Effective Python''), (''author'', JString ''Brett Slatkin''),
      (''packt_price'', JNumber (Finite (119 / 4))),
      (''packt_url'', JString ''https://packtpub.com/effective-python''),
      (''last_updated'', JString ''2024-01-15''), (''created_at'', JNull)]"

text \<open>Listings with no items: a page of books, a page of alerts, the sync history.\<close>

definition empty_book_page :: json where
  "empty_book_page = JObject
     [(''books'', JArray []), (''total'', JNumber (Finite 0)), (''page'', JNumber (Finite 1)),
      (''limit'', JNumber (Finite 20)), (''total_pages'', JNumber (Finite 0))]"

definition empty_alert_page :: json where
  "empty_alert_page = JObject
     [(''alerts'', JArray []), (''total'', JNumber (Finite 0)), (''page'', JNumber (Finite 1)),
      (''limit'', JNumber (Finite 20)), (''total_pages'', JNumber (Finite 0))]"

definition empty_sync_history :: json where
  "empty_sync_history = JObject [(''history'', JArray []), (''total'', JNumber (Finite 0))]"

text \<open>An alert of the alerts table in \<open>sent\<close> state.\<close>

definition sent_alert :: alert_row where
  "sent_alert =
     \<lparr>al_book = ''9780134685991'', al_threshold_type = Absolute, al_threshold_value = 5,
      al_tracked_price = 2999 / 100, al_competing_price = 21,
      al_competing_source = ''amazon'', al_triggered_at = 1000, al_status = Sent\<rparr>"

text \<open>
  A cycle on a feed of one row, \<open>ISBN=9780134685991, Price=29.99\<close>, from the empty store:
  the fingerprint is the content itself, the parser knows this one feed, and no later stage
  touches the store.
\<close>

definition example_fingerprint :: "string \<Rightarrow> string" where
  "example_fingerprint content = content"

definition example_feed :: string where
  "example_feed = ''ISBN,Title,Author,Packt_Price,Packt_URL,Last_Updated\<newline>9780134685991,,,29.99,,''"

definition example_record :: feed_record where
  "example_record =
     \<lparr>fr_isbn = ''9780134685991'', fr_title = None, fr_author = None,
      fr_price = Some (2999 / 100), fr_url = None, fr_last_updated = None\<rparr>"

definition example_parse :: "string \<Rightarrow> feed_record list \<times> (nat \<times> string) list" where
  "example_parse content = (if content = example_feed then ([example_record], []) else ([], []))"

definition no_later_stages :: "store \<Rightarrow> store" where
  "no_later_stages st = st"

definition empty_store :: store where
  "empty_store =
     \<lparr>books = [], price_history = [], alerts = [], sync_history = [], last_fingerprint = None\<rparr>"

definition first_cycle :: "store \<times> cycle_outcome" where
  "first_cycle =
     run_cycle example_fingerprint example_parse no_later_stages ''packt_books.csv'' 100 True
       (Some example_feed) empty_store"

text \<open>
  A policy of 10 percent, a book tracked at 30.00 and a third-party observation of it at a
  given price.
\<close>

definition ten_percent :: config where
  "ten_percent =
     \<lparr>cfg_threshold = \<lparr>policy_type = Percentage, policy_value = 10\<rparr>,
      cfg_cooldown = 86400, cfg_recency = 3600\<rparr>"

definition thirty_dollar_book :: book_row where
  "thirty_dollar_book =
     \<lparr>bk_isbn = ''9780134685991'', bk_title = None, bk_author = None,
      bk_tracked_price = Some 30, bk_source_url = None, bk_last_updated = None\<rparr>"

definition observed_at_price :: "rat \<Rightarrow> price_history_row" where
  "observed_at_price q =
     \<lparr>ph_book = ''9780134685991'', ph_source = ''amazon'', ph_price = Some q,
      ph_observed_at = 1000\<rparr>"

text \<open>A qualifying crossing of one (book, source) pair at a given time.\<close>

definition crossing_at :: "timestamp \<Rightarrow> crossing" where
  "crossing_at t =
     \<lparr>cr_book = ''9780134685991'', cr_source = ''amazon'', cr_tracked_price = 30,
      cr_competing_price = 26,
      cr_policy = \<lparr>policy_type = Percentage, policy_value = 10\<rparr>, cr_time = t\<rparr>"

text \<open>
  The doubles nearest to 8.135 and to 0.01, and an alert like the one above with these
  two prices: what a response with \<open>"packt_price": 8.135, "third_party_price": 0.01\<close>
  is parsed to.
\<close>

definition double_8_135 :: rat where
  "double_8_135 = 4579597871082373 / 2 ^ 49"

definition double_0_01 :: rat where
  "double_0_01 = 5764607523034235 / 2 ^ 59"

definition rounding_alert :: Alert where
  "rounding_alert =
     example_alert\<lparr>alert_packt_price := Finite double_8_135,
       third_party_price := Finite double_0_01\<rparr>"

text \<open>
  A price history of one entry as the price-history listing returns it, and the same
  entry wrapped in a five-tuple.
\<close>

definition example_price_entry :: json where
  "example_price_entry = JObject
     [(''id'', JNumber (Finite 1)), (''book_id'', JNumber (Finite 7)),
      (''source'', JString ''amazon''), (''price'', JNumber (Finite 21)),
      (''timestamp'', JString ''2024-01-15T10:00:00'')]"

definition example_price_history :: json where
  "example_price_history = JArray [example_price_entry]"

definition five_tuple_price_history :: json where
  "five_tuple_price_history = JObject
     [(''items'', JArray [example_price_entry]), (''total'', JNumber (Finite 1)),
      (''page'', JNumber (Finite 1)), (''limit'', JNumber (Finite 100)),
      (''total_pages'', JNumber (Finite 1))]"

section \<open>Rounding: lemmas\<close>

lemma pow2_powi: "pow2 e = 2 powi e"
  by (simp add: pow2_def power_int_def inverse_eq_divide power_one_over)

lemma pow2_pos: "0 < pow2 e"
  by (simp add: pow2_powi)

lemma pow2_add: "pow2 (i + j) = pow2 i * pow2 j"
  by (simp add: pow2_powi power_int_add)

lemma pow2_less_imp: "pow2 i < pow2 j \<Longrightarrow> i < j"
  using power_int_increasing [of j i "2::rat"] by (fastforce simp: pow2_powi)

lemma pow2_nat: "pow2 (int n) = 2 ^ n"
  by (simp add: pow2_def)

lemma floor_log2_bounds:
  "0 < n \<Longrightarrow> 2 ^ floor_log2 n \<le> n \<and> n < 2 ^ Suc (floor_log2 n)"
proof (induction n rule: floor_log2.induct)
  case (1 n)
  show ?case
  proof (cases "n < 2")
    case True
    with "1.prems" have "n = 1" by simp
    then show ?thesis by (simp add: floor_log2.simps)
  next
    case False
    then have pos: "0 < n div 2" by simp
    from "1.IH" [OF False pos]
    have lo: "2 ^ floor_log2 (n div 2) \<le> n div 2"
      and hi: "n div 2 < 2 ^ Suc (floor_log2 (n div 2))" by simp_all
    have fl: "floor_log2 n = Suc (floor_log2 (n div 2))"
      using False by (subst floor_log2.simps) simp
    from lo have "2 * 2 ^ floor_log2 (n div 2) \<le> n" by linarith
    moreover from hi have "n < 2 * 2 ^ Suc (floor_log2 (n div 2))" by linarith
    ultimately show ?thesis by (simp add: fl)
  qed
qed

lemma binade_bounds:
  assumes "0 < a"
  shows "pow2 (binade a) \<le> a \<and> a < pow2 (binade a + 1)"
proof (cases "1 \<le> a")
  case True
  define N where "N = nat \<lfloor>a\<rfloor>"
  from True have Npos: "0 < N" by (simp add: N_def)
  have fa: "of_nat N \<le> a" and fb: "a < of_nat N + 1"
    using True floor_correct [of a] by (simp_all add: N_def)
  from floor_log2_bounds [OF Npos]
  have lo: "2 ^ floor_log2 N \<le> N" and hi: "N + 1 \<le> 2 ^ Suc (floor_log2 N)" by simp_all
  have b: "binade a = int (floor_log2 N)" using True by (simp add: binade_def N_def)
  have "(2::rat) ^ floor_log2 N \<le> of_nat N"
    using lo by (metis of_nat_le_iff of_nat_numeral of_nat_power)
  from this fa have "2 ^ floor_log2 N \<le> a" by (rule order_trans)
  then have l: "pow2 (binade a) \<le> a" by (simp add: b pow2_nat)
  have "of_nat (N + 1) \<le> (2::rat) ^ Suc (floor_log2 N)"
    using hi by (metis of_nat_le_iff of_nat_numeral of_nat_power)
  with fb have "a < 2 ^ Suc (floor_log2 N)" by (simp only: of_nat_add of_nat_1 less_le_trans)
  moreover have "pow2 (binade a + 1) = 2 ^ Suc (floor_log2 N)"
  proof -
    have "binade a + 1 = int (Suc (floor_log2 N))" by (simp add: b)
    then show ?thesis by (simp only: pow2_nat)
  qed
  ultimately show ?thesis using l by simp
next
  case False
  define y where "y = 1 / a"
  from False assms have y1: "1 < y" by (simp add: y_def)
  define K where "K = nat (\<lceil>y\<rceil> - 1)"
  have cy: "2 \<le> \<lceil>y\<rceil>" using y1 by (simp add: le_ceiling_iff)
  then have Kpos: "0 < K" by (simp add: K_def)
  have Kint: "int K = \<lceil>y\<rceil> - 1" using cy by (simp add: K_def)
  have ky: "of_nat K < y"
  proof -
    have "of_int (\<lceil>y\<rceil> - 1) < y" by (simp add: ceiling_correct [of y] less_ceiling_iff)
    then show ?thesis by (metis Kint of_int_of_nat_eq)
  qed
  have yk: "y \<le> of_nat K + 1"
  proof -
    have "y \<le> of_int \<lceil>y\<rceil>" by (rule le_of_int_ceiling)
    also have "of_int \<lceil>y\<rceil> = (of_int (int K) :: rat) + 1" by (simp add: Kint)
    finally show ?thesis by simp
  qed
  define L where "L = floor_log2 K"
  from floor_log2_bounds [OF Kpos]
  have lo: "2 ^ L \<le> K" and hi: "K + 1 \<le> 2 ^ Suc L" by (simp_all add: L_def)
  have b: "binade a = - int (Suc L)"
    using False by (simp add: binade_def y_def K_def L_def)
  have "(2::rat) ^ L \<le> of_nat K"
    using lo by (metis of_nat_le_iff of_nat_numeral of_nat_power)
  from this ky have ylo: "2 ^ L < y" by (rule le_less_trans)
  have "of_nat (K + 1) \<le> (2::rat) ^ Suc L"
    using hi by (metis of_nat_le_iff of_nat_numeral of_nat_power)
  with yk have yhi: "y \<le> 2 ^ Suc L" by (simp only: of_nat_add of_nat_1 order_trans)
  have a_eq: "a = 1 / y" using assms by (simp add: y_def)
  have ypos: "0 < y" using y1 by simp
  have "nat (int L + 1) = Suc L" by simp
  then have pb: "pow2 (binade a) = 1 / 2 ^ Suc L"
    unfolding b by (simp add: pow2_def del: power_Suc)
  have "binade a + 1 = - int L" by (simp add: b)
  then have pb1: "pow2 (binade a + 1) = 1 / 2 ^ L"
    by (cases "L = 0") (simp_all add: pow2_def)
  have "1 / 2 ^ Suc L \<le> 1 / y"
    using yhi ypos by (simp add: frac_le)
  then have l: "pow2 (binade a) \<le> a"
    unfolding pb unfolding a_eq .
  have "1 / y < 1 / 2 ^ L"
    using ylo by (simp add: frac_less2)
  then have h: "a < pow2 (binade a + 1)"
    unfolding pb1 unfolding a_eq .
  from l h show ?thesis by simp
qed

lemma round_half_even_int: "round_half_even (of_int n) = n"
  by (simp add: round_half_even_def)

text \<open>A double is its own nearest double.\<close>

lemma round_double_exact:
  assumes m: "\<bar>m\<bar> < 2 ^ 53" and e: "- 1074 \<le> e"
    and x: "x = of_int m * pow2 e" and finite: "\<bar>x\<bar> < 2 ^ 1024"
  shows "round_double x = Finite x"
proof (cases "x = 0")
  case True
  then show ?thesis by (simp add: round_double_def)
next
  case False
  define a where "a = \<bar>x\<bar>"
  define E where "E = max (binade a - 52) (- 1074)"
  have apos: "0 < a" using False by (simp add: a_def)
  have a_eq: "a = of_int \<bar>m\<bar> * pow2 e"
    using pow2_pos [of e] by (simp add: a_def x abs_mult)
  from binade_bounds [OF apos] have "pow2 (binade a) \<le> a" by simp
  also have "a < 2 ^ 53 * pow2 e"
  proof -
    have "(of_int \<bar>m\<bar> :: rat) < of_int (2 ^ 53)" using m by (simp only: of_int_less_iff)
    then show ?thesis unfolding a_eq using pow2_pos [of e] by simp
  qed
  also have "\<dots> = pow2 (53 + e)" using pow2_nat [of 53] by (simp add: pow2_add)
  finally have "binade a < 53 + e" by (rule pow2_less_imp)
  with e have Ee: "E \<le> e" by (simp add: E_def)
  have factor: "pow2 e = pow2 (e - E) * pow2 E"
    using pow2_add [of "e - E" E] by simp
  have shift: "pow2 (e - E) = of_int (2 ^ nat (e - E))"
    using Ee by (simp add: pow2_def)
  have quot: "a / pow2 E = of_int (\<bar>m\<bar> * 2 ^ nat (e - E))"
    using pow2_pos [of E] by (simp add: a_eq factor shift)
  have undo: "of_int (\<bar>m\<bar> * 2 ^ nat (e - E)) * pow2 E = a"
    by (simp add: a_eq factor shift)
  have y: "of_int (round_half_even (a / pow2 E)) * pow2 E = a"
    unfolding quot round_half_even_int by (rule undo)
  have nofl: "\<not> 2 ^ 1024 \<le> a" using finite by (simp add: a_def)
  have sign: "(if x < 0 then - a else a) = x" by (simp add: a_def)
  show ?thesis
    using False nofl sign
    unfolding round_double_def Let_def a_def [symmetric] E_def [symmetric] y
    by simp
qed

section \<open>Formatting: lemmas\<close>

lemma digits_of_small: "n < 10 \<Longrightarrow> digits_of n = [digit_char n]"
  by (subst digits_of.simps) simp

lemma digits_of_step:
  "10 \<le> n \<Longrightarrow> digits_of n = digits_of (n div 10) @ [digit_char (n mod 10)]"
  by (subst digits_of.simps) simp

lemma digits_of_nonempty: "digits_of n \<noteq> []"
  by (subst digits_of.simps) simp

lemma digits_of_two:
  "10 \<le> n \<Longrightarrow> n < 100 \<Longrightarrow> digits_of n = [digit_char (n div 10), digit_char (n mod 10)]"
  by (simp add: digits_of_step digits_of_small)

lemma digits_of_hundred:
  assumes "100 \<le> n"
  shows "digits_of n =
    digits_of (n div 100) @ [digit_char (n div 10 mod 10), digit_char (n mod 10)]"
proof -
  have a: "10 \<le> n" and b: "10 \<le> n div 10" using assms by auto
  have c: "n div 10 div 10 = n div 100" by (simp add: div_mult2_eq)
  show ?thesis
    by (simp add: digits_of_step [OF a] digits_of_step [OF b] c)
qed

lemma is_digit_digit_char: "d < 10 \<Longrightarrow> is_digit (digit_char d)"
proof -
  assume "d < 10"
  then have "d \<in> {0, 1, 2, 3, 4, 5, 6, 7, 8, 9}" by auto
  then show ?thesis
    unfolding is_digit_def digit_char_def by (elim insertE emptyE) simp_all
qed

text \<open>The padding and splitting steps of \<open>toFixed\<close> for two fraction digits.\<close>

lemma digits_of_length_le_2: "length (digits_of n) \<le> 2 \<longleftrightarrow> n < 100"
proof (cases "n < 10")
  case True
  then show ?thesis by (simp add: digits_of_small)
next
  case False
  show ?thesis
  proof (cases "n < 100")
    case True
    with False show ?thesis by (simp add: digits_of_two)
  next
    case False
    have "digits_of (n div 100) \<noteq> []" by (rule digits_of_nonempty)
    then have "0 < length (digits_of (n div 100))" by simp
    with False show ?thesis by (simp add: digits_of_hundred)
  qed
qed

lemma pad_low:
  assumes "n < 100"
  shows "replicate (2 - length (digits_of n)) (CHR ''0'') @ digits_of n =
    [digit_char (n div 10 mod 10), digit_char (n mod 10)]"
    and "digits_of (n div 100) = ''0''"
proof -
  show "digits_of (n div 100) = ''0''"
    using assms by (simp add: digits_of_small digit_char_def)
  show "replicate (2 - length (digits_of n)) (CHR ''0'') @ digits_of n =
    [digit_char (n div 10 mod 10), digit_char (n mod 10)]"
  proof (cases "n < 10")
    case True
    then show ?thesis by (simp add: digits_of_small digit_char_def)
  next
    case False
    with assms show ?thesis by (simp add: digits_of_two)
  qed
qed

lemma split_high:
  assumes "100 \<le> n"
  shows "take (length (digits_of n) - 2) (digits_of n) = digits_of (n div 100)"
    and "drop (length (digits_of n) - 2) (digits_of n) =
      [digit_char (n div 10 mod 10), digit_char (n mod 10)]"
  using assms by (simp_all add: digits_of_hundred)

lemma toFixed_2_finite:
  assumes "\<bar>p\<bar> < 10 ^ 21"
  shows "toFixed (Finite p) 2 = Inr (render_two_decimals p)"
proof -
  define n where "n = nat \<lfloor>\<bar>p\<bar> * 100 + 1 / 2\<rfloor>"
  have abs: "(if p < 0 then - p else p) = \<bar>p\<bar>" by simp
  have small: "\<not> 10 ^ 21 \<le> \<bar>p\<bar>" using assms by simp
  have unfold: "toFixed (Finite p) 2 =
    Inr ((if p < 0 then ''-'' else '''') @
      (if length (digits_of n) \<le> 2
       then take 1 (replicate (3 - length (digits_of n)) (CHR ''0'') @ digits_of n) @ ''.'' @
            drop 1 (replicate (3 - length (digits_of n)) (CHR ''0'') @ digits_of n)
       else take (length (digits_of n) - 2) (digits_of n) @ ''.'' @
            drop (length (digits_of n) - 2) (digits_of n)))"
    unfolding toFixed_def n_def using small
    by (simp add: Let_def abs del: abs_if)
  have rhs: "render_two_decimals p =
    (if p < 0 then ''-'' else '''') @ digits_of (n div 100) @ ''.'' @
      [digit_char (n div 10 mod 10), digit_char (n mod 10)]"
    unfolding render_two_decimals_def n_def by (simp add: Let_def)
  show ?thesis
  proof (cases "n < 100")
    case True
    then have le: "length (digits_of n) \<le> 2" by (simp add: digits_of_length_le_2)
    have nonempty: "digits_of n \<noteq> []" by (rule digits_of_nonempty)
    from le nonempty have three:
      "replicate (3 - length (digits_of n)) (CHR ''0'') =
       CHR ''0'' # replicate (2 - length (digits_of n)) (CHR ''0'')"
      by (cases "digits_of n") (simp_all add: Suc_diff_le numeral_3_eq_3 numeral_2_eq_2)
    show ?thesis
      unfolding unfold rhs using le pad_low [OF True] by (simp add: three)
  next
    case False
    then have gt: "\<not> length (digits_of n) \<le> 2" by (simp add: digits_of_length_le_2)
    from False have "100 \<le> n" by simp
    from split_high [OF this] show ?thesis
      unfolding unfold rhs using gt by simp
  qed
qed

lemma toFixed_2_total: "\<exists>s. toFixed x 2 = Inr s"
  by (cases x) (simp_all add: toFixed_def Let_def)

lemma render_two_decimals_form: "two_decimal_form (render_two_decimals p)"
proof -
  have "is_digit (digit_char (n div 10 mod 10))" "is_digit (digit_char (n mod 10))" for n
    by (simp_all add: is_digit_digit_char)
  then show ?thesis
    by (simp add: two_decimal_form_def render_two_decimals_def Let_def nth_append)
qed

lemma pow10_powi: "pow10 e = 10 powi e"
  by (simp add: pow10_def power_int_def inverse_eq_divide power_one_over)

lemma pow10_pos: "0 < pow10 e"
  by (simp add: pow10_powi)

lemma pow10_add: "pow10 (i + j) = pow10 i * pow10 j"
  by (simp add: pow10_powi power_int_add)

lemma pow10_nat: "pow10 (int n) = 10 ^ n"
  by (simp add: pow10_def)

lemma digits_of_all_digits: "c \<in> set (digits_of n) \<Longrightarrow> is_digit c"
proof (induction n rule: digits_of.induct)
  case (1 n)
  show ?case
  proof (cases "n < 10")
    case True
    with "1.prems" show ?thesis by (simp add: digits_of_small is_digit_digit_char)
  next
    case False
    then have "digits_of n = digits_of (n div 10) @ [digit_char (n mod 10)]"
      by (simp add: digits_of_step)
    with "1.prems" have "c \<in> set (digits_of (n div 10)) \<or> c = digit_char (n mod 10)"
      by auto
    then show ?thesis
      using "1.IH" [OF False] by (auto simp: is_digit_digit_char)
  qed
qed

lemma digits_of_length_gt: "10 ^ k \<le> n \<Longrightarrow> k < length (digits_of n)"
proof (induction k arbitrary: n)
  case 0
  have "digits_of n \<noteq> []" by (rule digits_of_nonempty)
  then show ?case by simp
next
  case (Suc k)
  have "(10::nat) \<le> 10 ^ Suc k" by simp
  with Suc.prems have big: "10 \<le> n" by linarith
  from Suc.prems have "10 ^ k \<le> n div 10" by (simp add: less_eq_div_iff_mult_less_eq mult.commute)
  from Suc.IH [OF this] show ?case by (simp add: digits_of_step [OF big])
qed

lemma digits_of_lower: "0 < n \<Longrightarrow> 10 ^ (length (digits_of n) - 1) \<le> n"
proof (induction n rule: digits_of.induct)
  case (1 n)
  show ?case
  proof (cases "n < 10")
    case True
    with "1.prems" show ?thesis by (simp add: digits_of_small)
  next
    case False
    then have pos: "0 < n div 10" by simp
    have ne: "digits_of (n div 10) \<noteq> []" by (rule digits_of_nonempty)
    from "1.IH" [OF False pos]
    have "10 * 10 ^ (length (digits_of (n div 10)) - 1) \<le> n" by linarith
    moreover have "length (digits_of n) - 1 = Suc (length (digits_of (n div 10)) - 1)"
      using False ne by (simp add: digits_of_step)
    ultimately show ?thesis by simp
  qed
qed

lemma digit_candidates_nonempty: "digit_candidates x n k \<noteq> []"
  by (simp add: digit_candidates_def Let_def)

lemma digit_candidates_ge:
  "s \<in> set (digit_candidates x n k) \<Longrightarrow> \<lfloor>x / pow10 (n - int k)\<rfloor> \<le> s"
  by (auto simp: digit_candidates_def Let_def split: if_splits)

lemma shortest_digits_candidate:
  "shortest_digits x n k steps = (s, k') \<Longrightarrow>
     s \<in> set (digit_candidates x n k') \<and> k \<le> k'"
proof (induction steps arbitrary: k)
  case 0
  then show ?case using digit_candidates_nonempty [of x n k] by auto
next
  case (Suc steps)
  show ?case
  proof (cases "filter (reads_back x n k) (digit_candidates x n k)")
    case Nil
    with Suc.prems have "shortest_digits x n (Suc k) steps = (s, k')" by simp
    from Suc.IH [OF this] show ?thesis by simp
  next
    case (Cons s' rest)
    with Suc.prems have eq: "s = s'" "k' = k" by simp_all
    have "s' \<in> set (filter (reads_back x n k) (digit_candidates x n k))"
      by (simp add: Cons)
    then show ?thesis using eq by simp
  qed
qed

lemma exponent_not_two_decimal:
  assumes "2 \<le> length dd" and "\<forall>c \<in> set dd. is_digit c"
  shows "\<not> two_decimal_form (pre @ ''e+'' @ dd)"
proof (cases "length dd = 2")
  case True
  then have "(pre @ ''e+'' @ dd) ! (length (pre @ ''e+'' @ dd) - 3) = CHR ''+''"
    by (simp add: nth_append)
  then show ?thesis by (simp add: two_decimal_form_def)
next
  case False
  with assms(1) have three: "3 \<le> length dd" by simp
  then have idx: "length (pre @ ''e+'' @ dd) - 3 = length (pre @ ''e+'') + (length dd - 3)"
    by simp
  have "(pre @ ''e+'' @ dd) ! (length (pre @ ''e+'' @ dd) - 3) = dd ! (length dd - 3)"
    unfolding idx using nth_append_length_plus [of "pre @ ''e+''" dd "length dd - 3"]
    by (simp del: length_append)
  moreover have "dd ! (length dd - 3) \<in> set dd" using three by simp
  then have "is_digit (dd ! (length dd - 3))" using assms(2) by blast
  then have "dd ! (length dd - 3) \<noteq> CHR ''.''" by (auto simp: is_digit_def)
  ultimately show ?thesis by (simp add: two_decimal_form_def)
qed

text \<open>From \<open>10^21\<close> on, \<open>Number::toString\<close> is in exponential notation.\<close>

lemma positive_toString_large:
  assumes "10 ^ 21 \<le> x"
  shows "\<exists>pre dd. positive_toString x = pre @ ''e+'' @ dd \<and> 2 \<le> length dd \<and>
    (\<forall>c \<in> set dd. is_digit c)"
proof -
  define F where "F = nat \<lfloor>x\<rfloor>"
  define L where "L = length (digits_of F)"
  have x1: "1 \<le> x" using assms by (rule order_trans [rotated]) simp
  have "(10::int) ^ 21 \<le> \<lfloor>x\<rfloor>" using assms by (simp add: le_floor_iff)
  then have F21: "10 ^ 21 \<le> F" unfolding F_def by (simp add: le_nat_iff)
  then have L22: "21 < L" unfolding L_def by (rule digits_of_length_gt)
  have n0: "decimal_exponent x = int L"
    using x1 by (simp add: decimal_exponent_def L_def F_def)
  obtain s k' where sd: "shortest_digits x (int L) 1 16 = (s, k')"
    by (cases "shortest_digits x (int L) 1 16") blast
  from shortest_digits_candidate [OF sd]
  have cand: "s \<in> set (digit_candidates x (int L) k')" and k1: "1 \<le> k'" by simp_all
  have Fpos: "0 < F" using F21 by simp
  have "10 ^ (L - 1) \<le> F" unfolding L_def using Fpos by (rule digits_of_lower)
  then have "(10::rat) ^ (L - 1) \<le> of_nat F"
    by (metis of_nat_le_iff of_nat_numeral of_nat_power)
  also have "of_nat F \<le> x" using x1 by (simp add: F_def)
  finally have xlow: "10 ^ (L - 1) \<le> x" .
  have "pow10 (int L - 1) = pow10 (int k' - 1) * pow10 (int L - int k')"
    using pow10_add [of "int k' - 1" "int L - int k'"] by simp
  moreover have "pow10 (int L - 1) = 10 ^ (L - 1)"
    using L22 pow10_nat [of "L - 1"] by (simp add: of_nat_diff)
  moreover have "pow10 (int k' - 1) = 10 ^ (k' - 1)"
    using k1 pow10_nat [of "k' - 1"] by (simp add: of_nat_diff)
  ultimately have "10 ^ (k' - 1) * pow10 (int L - int k') \<le> x"
    using xlow by simp
  then have "(10::rat) ^ (k' - 1) \<le> x / pow10 (int L - int k')"
    using pow10_pos [of "int L - int k'"] by (simp add: pos_le_divide_eq)
  then have "of_int (10 ^ (k' - 1)) \<le> x / pow10 (int L - int k')" by simp
  then have "(10::int) ^ (k' - 1) \<le> \<lfloor>x / pow10 (int L - int k')\<rfloor>"
    by (simp only: le_floor_iff)
  with digit_candidates_ge [OF cand] have slow: "10 ^ (k' - 1) \<le> s" by simp
  then have "10 ^ (k' - 1) \<le> nat s" by (simp add: le_nat_iff)
  then have "k' - 1 < length (digits_of (nat s))" by (rule digits_of_length_gt)
  then have len: "k' \<le> length (digits_of (nat s))" by simp
  define n where "n = int L - int k' + int (length (digits_of (nat s)))"
  have n22: "22 \<le> n" using L22 len by (simp add: n_def)
  define dd where "dd = digits_of (nat \<bar>n - 1\<bar>)"
  have "10 ^ 1 \<le> nat \<bar>n - 1\<bar>" using n22 by simp
  then have "1 < length dd" unfolding dd_def by (rule digits_of_length_gt)
  then have dd2: "2 \<le> length dd" by simp
  have dddig: "\<forall>c \<in> set dd. is_digit c"
    unfolding dd_def by (simp add: digits_of_all_digits)
  define ds where "ds = strip_zeros (digits_of (nat s))"
  have out: "positive_toString x =
    (if int (length ds) = 1 then ds @ ''e'' @ ''+'' @ dd
     else take 1 ds @ ''.'' @ drop 1 ds @ ''e'' @ ''+'' @ dd)"
    using n22 unfolding positive_toString_def n0 sd Let_def prod.case
      n_def [symmetric] ds_def [symmetric] dd_def
    by simp
  show ?thesis
  proof (cases "int (length ds) = 1")
    case True
    with out have "positive_toString x = ds @ ''e+'' @ dd" by simp
    with dd2 dddig show ?thesis by blast
  next
    case False
    with out have "positive_toString x = (take 1 ds @ ''.'' @ drop 1 ds) @ ''e+'' @ dd" by simp
    with dd2 dddig show ?thesis by blast
  qed
qed

lemma toFixed_2_large:
  assumes "10 ^ 21 \<le> \<bar>p\<bar>"
  shows "toFixed (Finite p) 2 =
      Inr ((if p < 0 then ''-'' else '''') @ number_toString (Finite \<bar>p\<bar>))"
    and "\<not> two_decimal_form ((if p < 0 then ''-'' else '''') @ number_toString (Finite \<bar>p\<bar>))"
proof -
  have abs: "(if p < 0 then - p else p) = \<bar>p\<bar>" by simp
  show "toFixed (Finite p) 2 =
      Inr ((if p < 0 then ''-'' else '''') @ number_toString (Finite \<bar>p\<bar>))"
    unfolding toFixed_def using assms
    by (simp add: Let_def abs del: abs_if number_toString.simps)
  have pos: "0 < \<bar>p\<bar>" using assms by (rule less_le_trans [rotated]) simp
  then have ns: "number_toString (Finite \<bar>p\<bar>) = positive_toString \<bar>p\<bar>" by simp
  from positive_toString_large [OF assms] obtain pre dd where
    out: "positive_toString \<bar>p\<bar> = pre @ ''e+'' @ dd"
    and dd: "2 \<le> length dd" "\<forall>c \<in> set dd. is_digit c"
    by blast
  have "\<not> two_decimal_form (((if p < 0 then ''-'' else '''') @ pre) @ ''e+'' @ dd)"
    using dd by (rule exponent_not_two_decimal)
  then show "\<not> two_decimal_form ((if p < 0 then ''-'' else '''') @ number_toString (Finite \<bar>p\<bar>))"
    unfolding ns out by simp
qed

lemma binade_unique:
  assumes lo: "pow2 b \<le> a" and hi: "a < pow2 (b + 1)"
  shows "binade a = b"
proof -
  have "0 < a" using pow2_pos [of b] lo by (rule less_le_trans)
  from binade_bounds [OF this]
  have l: "pow2 (binade a) \<le> a" and h: "a < pow2 (binade a + 1)" by simp_all
  from l hi have "pow2 (binade a) < pow2 (b + 1)" by (rule le_less_trans)
  then have "binade a < b + 1" by (rule pow2_less_imp)
  moreover from lo h have "pow2 b < pow2 (binade a + 1)" by (rule le_less_trans)
  then have "b < binade a + 1" by (rule pow2_less_imp)
  ultimately show ?thesis by simp
qed

text \<open>Rounding a positive number whose binade is known.\<close>

lemma round_double_eval:
  assumes pos: "0 < x" and lo: "pow2 b \<le> x" and hi: "x < pow2 (b + 1)"
    and m: "round_half_even (x / pow2 (max (b - 52) (- 1074))) = m"
    and y: "of_int m * pow2 (max (b - 52) (- 1074)) = y"
    and finite: "y < 2 ^ 1024"
  shows "round_double x = Finite y"
proof -
  have abs: "\<bar>x\<bar> = x" using pos by simp
  have b: "binade x = b" using lo hi by (rule binade_unique)
  show ?thesis
    unfolding round_double_def Let_def abs b m y
    using pos finite by simp
qed

lemma double_8_135_nearest: "round_double (8135 / 1000) = Finite double_8_135"
proof (rule round_double_eval [where b = 3 and m = 4579597871082373])
  show "(0::rat) < 8135 / 1000" by simp
  show "pow2 3 \<le> 8135 / 1000" by (simp add: pow2_def)
  show "8135 / 1000 < pow2 (3 + 1)" by (simp add: pow2_def)
  show "round_half_even (8135 / 1000 / pow2 (max (3 - 52) (- 1074))) = 4579597871082373"
    by code_simp
  show "of_int 4579597871082373 * pow2 (max (3 - 52) (- 1074)) = double_8_135"
    by (simp add: pow2_def double_8_135_def)
  show "double_8_135 < 2 ^ 1024" by (simp add: double_8_135_def)
qed

lemma double_0_01_nearest: "round_double (1 / 100) = Finite double_0_01"
proof (rule round_double_eval [where b = "- 7" and m = 5764607523034235])
  show "(0::rat) < 1 / 100" by simp
  show "pow2 (- 7) \<le> 1 / 100" by (simp add: pow2_def)
  show "1 / 100 < pow2 (- 7 + 1)" by (simp add: pow2_def)
  show "round_half_even (1 / 100 / pow2 (max (- 7 - 52) (- 1074))) = 5764607523034235"
    by code_simp
  show "of_int 5764607523034235 * pow2 (max (- 7 - 52) (- 1074)) = double_0_01"
    by (simp add: pow2_def double_0_01_def)
  show "double_0_01 < 2 ^ 1024" by (simp add: double_0_01_def)
qed

lemma double_sub_8_125: "js_sub (Finite double_8_135) (Finite double_0_01) = Finite (65 / 8)"
  unfolding js_sub.simps
proof (rule round_double_eval [where b = 3 and m = 4573968371548160])
  show "0 < double_8_135 - double_0_01" by (simp add: double_8_135_def double_0_01_def)
  show "pow2 3 \<le> double_8_135 - double_0_01"
    by (simp add: pow2_def double_8_135_def double_0_01_def)
  show "double_8_135 - double_0_01 < pow2 (3 + 1)"
    by (simp add: pow2_def double_8_135_def double_0_01_def)
  show "round_half_even ((double_8_135 - double_0_01) / pow2 (max (3 - 52) (- 1074))) =
      4573968371548160"
    by code_simp
  show "of_int 4573968371548160 * pow2 (max (3 - 52) (- 1074)) = 65 / 8"
    by (simp add: pow2_def)
  show "(65 / 8 :: rat) < 2 ^ 1024" by simp
qed

lemma digits_of_length_le: "0 < k \<Longrightarrow> n < 10 ^ k \<Longrightarrow> length (digits_of n) \<le> k"
proof (induction k arbitrary: n)
  case 0
  then show ?case by simp
next
  case (Suc k)
  show ?case
  proof (cases "n < 10")
    case True
    then show ?thesis by (simp add: digits_of_small)
  next
    case False
    then have big: "10 \<le> n" by simp
    have kpos: "0 < k"
    proof (rule ccontr)
      assume "\<not> 0 < k"
      with Suc.prems False show False by simp
    qed
    from Suc.prems have "n div 10 < 10 ^ k" by (simp add: div_less_iff_less_mult mult.commute)
    from Suc.IH [OF kpos this] show ?thesis by (simp add: digits_of_step [OF big])
  qed
qed

lemma digits_of_length: "10 ^ k \<le> n \<Longrightarrow> n < 10 ^ Suc k \<Longrightarrow> length (digits_of n) = Suc k"
  using digits_of_length_gt [of k n] digits_of_length_le [of "Suc k" n] by simp

lemma toString_1e21: "number_toString (Finite (10 ^ 21)) = ''1e+21''"
proof -
  have "length (digits_of (10 ^ 21)) = Suc 21"
    by (rule digits_of_length) simp_all
  then have de: "decimal_exponent (10 ^ 21) = 22"
    by (simp add: decimal_exponent_def)
  have dc: "digit_candidates (10 ^ 21) 22 1 = [1]"
    by (simp add: digit_candidates_def pow10_def)
  have "round_double (10 ^ 21) = Finite (10 ^ 21)"
    by (rule round_double_exact [where m = "5 ^ 21" and e = 21]) (simp_all add: pow2_def)
  then have rb: "reads_back (10 ^ 21) 22 1 1"
    by (simp add: reads_back_def pow10_def)
  have "shortest_digits (10 ^ 21) 22 1 (Suc 15) = (1, 1)"
    unfolding shortest_digits.simps dc using rb by simp
  then have sd: "shortest_digits (10 ^ 21) 22 1 16 = (1, 1)" by simp
  have pt: "positive_toString (10 ^ 21) = ''1e+21''"
    unfolding positive_toString_def de sd Let_def prod.case
    by (simp add: digits_of_small digits_of_two strip_zeros_def digit_char_def)
  show ?thesis using pt by simp
qed

section \<open>The claims\<close>

subsection \<open>C9: formatPrice\<close>

lemma formatPrice_Val: "\<exists>s. formatPrice (Val x) = Inr (CHR ''$'' # s)"
proof -
  obtain s where "toFixed x 2 = Inr s" using toFixed_2_total by blast
  then show ?thesis by (simp add: formatPrice_def)
qed

text \<open>
  C9, as the code has it. \<open>formatPrice\<close> returns \<open>'N/A'\<close> exactly when its input is \<open>null\<close> or
  \<open>undefined\<close>, and it returns a string on every input. For every finite number \<open>p\<close> with
  \<open>|p| < 10^21\<close> it returns \<open>'$'\<close> followed by \<open>p\<close> rounded to hundredths and rendered with
  exactly two decimal places. For \<open>NaN\<close> and the infinities it returns \<open>'$NaN'\<close>,
  \<open>'$Infinity'\<close> and \<open>'$-Infinity'\<close>. For every finite \<open>p\<close> with \<open>|p| \<ge> 10^21\<close> it returns
  \<open>'$'\<close>, the sign, and \<open>Number::toString\<close> of \<open>|p|\<close>, which is in exponential notation (it
  ends in \<open>e+\<close> and an exponent of two digits or more) and so has not two decimal places.
\<close>

theorem formatPrice_two_decimals:
  "(formatPrice price = Inr ''N/A'' \<longleftrightarrow> price = Null \<or> price = Undefined) \<and>
   (\<exists>s. formatPrice price = Inr s) \<and>
   (\<bar>p\<bar> < 10 ^ 21 \<longrightarrow>
      formatPrice (Val (Finite p)) = Inr (''$'' @ render_two_decimals p) \<and>
      two_decimal_form (render_two_decimals p)) \<and>
   formatPrice (Val NaN) = Inr ''$NaN'' \<and>
   formatPrice (Val PosInfinity) = Inr ''$Infinity'' \<and>
   formatPrice (Val NegInfinity) = Inr ''$-Infinity'' \<and>
   (10 ^ 21 \<le> \<bar>p\<bar> \<longrightarrow>
      formatPrice (Val (Finite p)) =
        Inr (''$'' @ (if p < 0 then ''-'' else '''') @ number_toString (Finite \<bar>p\<bar>)) \<and>
      (\<exists>mantissa exponent.
         number_toString (Finite \<bar>p\<bar>) = mantissa @ ''e+'' @ exponent \<and>
         2 \<le> length exponent \<and> (\<forall>c \<in> set exponent. is_digit c)) \<and>
      \<not> two_decimal_form ((if p < 0 then ''-'' else '''') @ number_toString (Finite \<bar>p\<bar>)))"
proof (intro conjI impI)
  show "formatPrice price = Inr ''N/A'' \<longleftrightarrow> price = Null \<or> price = Undefined"
  proof (cases price)
    case (Val x)
    obtain s where "formatPrice (Val x) = Inr (CHR ''$'' # s)"
      using formatPrice_Val by blast
    with Val show ?thesis by simp
  qed (simp_all add: formatPrice_def)
  show "\<exists>s. formatPrice price = Inr s"
  proof (cases price)
    case (Val x)
    then show ?thesis using formatPrice_Val [of x] by auto
  qed (simp_all add: formatPrice_def)
  show "formatPrice (Val (Finite p)) = Inr (''$'' @ render_two_decimals p)"
    if "\<bar>p\<bar> < 10 ^ 21"
    using that by (simp add: formatPrice_def toFixed_2_finite)
  show "two_decimal_form (render_two_decimals p)"
    by (rule render_two_decimals_form)
  show "formatPrice (Val NaN) = Inr ''$NaN''"
    by (simp add: formatPrice_def toFixed_def)
  show "formatPrice (Val PosInfinity) = Inr ''$Infinity''"
    by (simp add: formatPrice_def toFixed_def)
  show "formatPrice (Val NegInfinity) = Inr ''$-Infinity''"
    by (simp add: formatPrice_def toFixed_def)
  show "formatPrice (Val (Finite p)) =
      Inr (''$'' @ (if p < 0 then ''-'' else '''') @ number_toString (Finite \<bar>p\<bar>))"
    if "10 ^ 21 \<le> \<bar>p\<bar>"
    unfolding formatPrice_def using toFixed_2_large(1) [OF that] by simp
  show "\<exists>mantissa exponent.
      number_toString (Finite \<bar>p\<bar>) = mantissa @ ''e+'' @ exponent \<and>
      2 \<le> length exponent \<and> (\<forall>c \<in> set exponent. is_digit c)"
    if "10 ^ 21 \<le> \<bar>p\<bar>"
  proof -
    have "0 < \<bar>p\<bar>" using that by (rule less_le_trans [rotated]) simp
    then have "number_toString (Finite \<bar>p\<bar>) = positive_toString \<bar>p\<bar>" by simp
    with positive_toString_large [OF that] show ?thesis by simp
  qed
  show "\<not> two_decimal_form ((if p < 0 then ''-'' else '''') @ number_toString (Finite \<bar>p\<bar>))"
    if "10 ^ 21 \<le> \<bar>p\<bar>"
    using that by (rule toFixed_2_large(2))
qed

text \<open>
  The price 29.75 is rendered as \<open>$29.75\<close>, \<open>null\<close> as \<open>N/A\<close>, and \<open>10^21\<close> as \<open>$1e+21\<close>.
\<close>

theorem formatPrice_two_decimals_witness:
  "\<bar>119 / 4 :: rat\<bar> < 10 ^ 21 \<and>
   formatPrice (Val (Finite (119 / 4))) = Inr ''$29.75'' \<and>
   two_decimal_form ''29.75'' \<and>
   formatPrice Null = Inr ''N/A'' \<and>
   (10 ^ 21 :: rat) \<le> \<bar>10 ^ 21\<bar> \<and>
   formatPrice (Val (Finite (10 ^ 21))) = Inr ''$1e+21'' \<and>
   \<not> two_decimal_form ''1e+21''"
proof -
  have r: "render_two_decimals (119 / 4) = ''29.75''" by code_simp
  have b: "\<bar>119 / 4 :: rat\<bar> < 10 ^ 21" by simp
  have l: "(10 ^ 21 :: rat) \<le> \<bar>10 ^ 21\<bar>" by simp
  have a: "\<bar>10 ^ 21 :: rat\<bar> = 10 ^ 21" by simp
  have n: "\<not> (10 ^ 21 :: rat) < 0" by simp
  note small = formatPrice_two_decimals [of Null "119 / 4"]
  note large = formatPrice_two_decimals [of Null "10 ^ 21"]
  from small b have s1: "formatPrice (Val (Finite (119 / 4))) = Inr ''$29.75''"
    and s2: "two_decimal_form ''29.75''" and s3: "formatPrice Null = Inr ''N/A''"
    unfolding r by simp_all
  from large l have l1: "formatPrice (Val (Finite (10 ^ 21))) = Inr ''$1e+21''"
    and l2: "\<not> two_decimal_form ''1e+21''"
    unfolding a toString_1e21 using n by simp_all
  from b s1 s2 s3 l l1 l2 show ?thesis by blast
qed

text \<open>
  C9 as stated fails at the numbers \<open>NaN\<close> and \<open>10^21\<close>: \<open>NaN.toFixed(2)\<close> is \<open>'NaN'\<close> and
  \<open>(1e21).toFixed(2)\<close> is \<open>'1e+21'\<close>, so \<open>formatPrice\<close> returns \<open>'$NaN'\<close> and \<open>'$1e+21'\<close>,
  which have no decimal places.
\<close>

theorem formatPrice_NaN_counterexample:
  "formatPrice (Val NaN) = Inr ''$NaN'' \<and> \<not> two_decimal_form ''NaN'' \<and>
   formatPrice (Val (Finite (10 ^ 21))) = Inr ''$1e+21'' \<and> \<not> two_decimal_form ''1e+21''"
proof -
  have "toFixed (Finite (10 ^ 21)) 2 = Inr (number_toString (Finite (10 ^ 21)))"
    by (simp add: toFixed_def Let_def del: number_toString.simps)
  then have "formatPrice (Val (Finite (10 ^ 21))) = Inr ''$1e+21''"
    unfolding toString_1e21 by (simp add: formatPrice_def)
  then show ?thesis
    by (simp add: formatPrice_def toFixed_def two_decimal_form_def)
qed

subsection \<open>C4: the savings shown for an alert\<close>

text \<open>
  C4, as the code has it. For every alert with recorded prices \<open>p\<close> (Packt, at trigger) and
  \<open>t\<close> (third party), the "Savings" cell of the alerts page and the "Save:" span of the
  recent alerts show the formatted double nearest to the delta of the comparator, \<open>p - t\<close>,
  computed from the alert's own two prices; and they show the formatted delta itself
  whenever the delta is a double (an integer below \<open>2^53\<close> in magnitude times a power of
  two from \<open>2^-1074\<close> on, below \<open>2^1024\<close> in magnitude).
\<close>

theorem savings_is_rounded_price_delta:
  assumes "alert_packt_price a = Finite p" and "third_party_price a = Finite t"
  shows "Alerts_savings a = formatPrice (Val (round_double (price_delta p t))) \<and>
    RecentAlerts_save a =
      (case formatPrice (Val (round_double (price_delta p t))) of
         Inl e \<Rightarrow> Inl e | Inr s \<Rightarrow> Inr (''Save: '' @ s)) \<and>
    price_delta p t = p - t \<and>
    (\<forall>m e. \<bar>m\<bar> < 2 ^ 53 \<and> - 1074 \<le> e \<and> price_delta p t = of_int m * pow2 e \<and>
       \<bar>price_delta p t\<bar> < 2 ^ 1024 \<longrightarrow>
       Alerts_savings a = formatPrice (Val (Finite (price_delta p t))) \<and>
       RecentAlerts_save a =
         (case formatPrice (Val (Finite (price_delta p t))) of
            Inl e \<Rightarrow> Inl e | Inr s \<Rightarrow> Inr (''Save: '' @ s)))"
proof (intro conjI allI impI)
  show shown: "Alerts_savings a = formatPrice (Val (round_double (price_delta p t)))"
    using assms by (simp add: Alerts_savings_def price_delta_def)
  show span: "RecentAlerts_save a =
      (case formatPrice (Val (round_double (price_delta p t))) of
         Inl e \<Rightarrow> Inl e | Inr s \<Rightarrow> Inr (''Save: '' @ s))"
    using assms by (simp add: RecentAlerts_save_def price_delta_def)
  show "price_delta p t = p - t" by (simp add: price_delta_def)
  fix m e
  assume double: "\<bar>m\<bar> < 2 ^ 53 \<and> - 1074 \<le> e \<and> price_delta p t = of_int m * pow2 e \<and>
    \<bar>price_delta p t\<bar> < 2 ^ 1024"
  then have exact: "round_double (price_delta p t) = Finite (price_delta p t)"
    using round_double_exact [of m e "price_delta p t"] by blast
  show "Alerts_savings a = formatPrice (Val (Finite (price_delta p t)))"
    unfolding shown exact ..
  show "RecentAlerts_save a =
      (case formatPrice (Val (Finite (price_delta p t))) of
         Inl e \<Rightarrow> Inl e | Inr s \<Rightarrow> Inr (''Save: '' @ s))"
    unfolding span exact ..
qed

text \<open>
  An alert with prices 29.75 and 21.00, whose delta \<open>8.75 = 35 * 2^-2\<close> is a double, shows
  savings of \<open>$8.75\<close>.
\<close>

theorem savings_is_rounded_price_delta_witness:
  "alert_packt_price example_alert = Finite (119 / 4) \<and>
   third_party_price example_alert = Finite 21 \<and>
   \<bar>35 :: int\<bar> < 2 ^ 53 \<and> (- 1074 :: int) \<le> - 2 \<and>
   price_delta (119 / 4) 21 = of_int 35 * pow2 (- 2) \<and>
   \<bar>price_delta (119 / 4) 21\<bar> < 2 ^ 1024 \<and>
   Alerts_savings example_alert = Inr ''$8.75'' \<and>
   RecentAlerts_save example_alert = Inr ''Save: $8.75''"
proof -
  have p: "alert_packt_price example_alert = Finite (119 / 4)"
    and t: "third_party_price example_alert = Finite 21"
    by (simp_all add: example_alert_def)
  have d: "\<bar>35 :: int\<bar> < 2 ^ 53 \<and> (- 1074 :: int) \<le> - 2 \<and>
    price_delta (119 / 4) 21 = of_int 35 * pow2 (- 2) \<and>
    \<bar>price_delta (119 / 4) 21\<bar> < 2 ^ 1024"
    by (simp add: price_delta_def pow2_def)
  have f: "formatPrice (Val (Finite (price_delta (119 / 4) 21))) = Inr ''$8.75''"
    by code_simp
  from savings_is_rounded_price_delta [OF p t] d
  have "Alerts_savings example_alert = formatPrice (Val (Finite (price_delta (119 / 4) 21))) \<and>
    RecentAlerts_save example_alert =
      (case formatPrice (Val (Finite (price_delta (119 / 4) 21))) of
         Inl e \<Rightarrow> Inl e | Inr s \<Rightarrow> Inr (''Save: '' @ s))"
    by blast
  then have shown: "Alerts_savings example_alert = Inr ''$8.75'' \<and>
    RecentAlerts_save example_alert = Inr ''Save: $8.75''"
    unfolding f by simp
  from p t d shown show ?thesis by blast
qed

text \<open>
  C4 as stated fails where the subtraction rounds. The doubles nearest to 8.135 and to 0.01
  differ by a little less than 8.125, which to two places is 8.12; the subtraction of the
  code rounds the difference to the double 8.125, and the alert shows \<open>$8.13\<close>.
\<close>

theorem savings_rounding_counterexample:
  "round_double (8135 / 1000) = Finite double_8_135 \<and>
   round_double (1 / 100) = Finite double_0_01 \<and>
   alert_packt_price rounding_alert = Finite double_8_135 \<and>
   third_party_price rounding_alert = Finite double_0_01 \<and>
   price_delta double_8_135 double_0_01 < 65 / 8 \<and>
   formatPrice (Val (Finite (price_delta double_8_135 double_0_01))) = Inr ''$8.12'' \<and>
   Alerts_savings rounding_alert = Inr ''$8.13'' \<and>
   RecentAlerts_save rounding_alert = Inr ''Save: $8.13''"
proof -
  have p: "alert_packt_price rounding_alert = Finite double_8_135"
    and t: "third_party_price rounding_alert = Finite double_0_01"
    by (simp_all add: rounding_alert_def)
  have less: "price_delta double_8_135 double_0_01 < 65 / 8"
    by (simp add: price_delta_def double_8_135_def double_0_01_def)
  have exact: "formatPrice (Val (Finite (price_delta double_8_135 double_0_01))) = Inr ''$8.12''"
    by code_simp
  have rounded: "formatPrice (Val (Finite (65 / 8))) = Inr ''$8.13''"
    by code_simp
  have shown: "Alerts_savings rounding_alert = Inr ''$8.13''"
    unfolding Alerts_savings_def p t double_sub_8_125 by (rule rounded)
  have span: "RecentAlerts_save rounding_alert = Inr ''Save: $8.13''"
    unfolding RecentAlerts_save_def p t double_sub_8_125 rounded by simp
  from double_8_135_nearest double_0_01_nearest p t less exact shown span
  show ?thesis by blast
qed

subsection \<open>C10: a zero price among the books needing attention\<close>

lemma foldl_group_book:
  "foldl group_book g bs =
     \<lparr>missing_author = missing_author g @ filter (\<lambda>b. blank (author b)) bs,
      missing_url = missing_url g @ filter (\<lambda>b. blank (packt_url b)) bs,
      missing_price = missing_price g @ filter (\<lambda>b. \<not> truthy_number (packt_price b)) bs\<rparr>"
proof (induction bs arbitrary: g)
  case Nil
  then show ?case by simp
next
  case (Cons b bs)
  show ?case
    unfolding foldl_Cons Cons.IH by (simp add: group_book_def)
qed

lemma falsy_number_cases:
  "\<not> truthy_number v \<longleftrightarrow> v = Null \<or> v = Undefined \<or> v = Val (Finite 0) \<or> v = Val NaN"
  by (cases v rule: truthy_number.cases) auto

lemma missing_price_flag:
  "''Missing Price'' \<in> set (getAttentionIssues b) \<longleftrightarrow> \<not> truthy_number (packt_price b)"
  by (simp add: getAttentionIssues_def Let_def)

text \<open>
  The classification. For every book, the books page lists "Missing Price", and the
  dashboard puts the book in its missing-price group, exactly when \<open>packt_price\<close> is falsy:
  \<open>null\<close>, \<open>undefined\<close>, \<open>0\<close> (or \<open>NaN\<close>); and a book with price 0 gets the same issues as
  the book with no price.
\<close>

lemma zero_price_is_missing_price:
  "(''Missing Price'' \<in> set (getAttentionIssues b) \<longleftrightarrow>
      packt_price b = Null \<or> packt_price b = Undefined \<or>
      packt_price b = Val (Finite 0) \<or> packt_price b = Val NaN) \<and>
   (b \<in> set (missing_price (booksByIssue bs)) \<longleftrightarrow>
      b \<in> set bs \<and>
      (packt_price b = Null \<or> packt_price b = Undefined \<or>
       packt_price b = Val (Finite 0) \<or> packt_price b = Val NaN)) \<and>
   getAttentionIssues (b\<lparr>packt_price := Val (Finite 0)\<rparr>) =
     getAttentionIssues (b\<lparr>packt_price := Null\<rparr>) \<and>
   getAttentionIssues (b\<lparr>packt_price := Val (Finite 0)\<rparr>) =
     getAttentionIssues (b\<lparr>packt_price := Undefined\<rparr>)"
proof (intro conjI)
  show "''Missing Price'' \<in> set (getAttentionIssues b) \<longleftrightarrow>
      packt_price b = Null \<or> packt_price b = Undefined \<or>
      packt_price b = Val (Finite 0) \<or> packt_price b = Val NaN"
    by (simp only: missing_price_flag falsy_number_cases)
  show "b \<in> set (missing_price (booksByIssue bs)) \<longleftrightarrow>
      b \<in> set bs \<and>
      (packt_price b = Null \<or> packt_price b = Undefined \<or>
       packt_price b = Val (Finite 0) \<or> packt_price b = Val NaN)"
    by (simp add: booksByIssue_def foldl_group_book falsy_number_cases)
  show "getAttentionIssues (b\<lparr>packt_price := Val (Finite 0)\<rparr>) =
     getAttentionIssues (b\<lparr>packt_price := Null\<rparr>)"
    by (simp add: getAttentionIssues_def)
  show "getAttentionIssues (b\<lparr>packt_price := Val (Finite 0)\<rparr>) =
     getAttentionIssues (b\<lparr>packt_price := Undefined\<rparr>)"
    by (simp add: getAttentionIssues_def)
qed

text \<open>
  The line of a book in the dashboard list. With a truthy price it ends in the formatted
  price; with no price it ends after the ISBN; with the price 0 the expression
  \<open>book.packt_price && ...\<close> is the number 0, which is put on the page as \<open>0\<close>.
\<close>

lemma attention_line_by_price:
  "attention_line (b\<lparr>packt_price := Null\<rparr>) = Inr (''ISBN: '' @ isbn b) \<and>
   attention_line (b\<lparr>packt_price := Undefined\<rparr>) = Inr (''ISBN: '' @ isbn b) \<and>
   attention_line (b\<lparr>packt_price := Val (Finite 0)\<rparr>) = Inr (''ISBN: '' @ isbn b @ ''0'') \<and>
   attention_line (b\<lparr>packt_price := Val NaN\<rparr>) = Inr (''ISBN: '' @ isbn b @ ''NaN'')"
  by (simp add: attention_line_def price_or_falsy_def)

text \<open>
  C10 at a book in need of attention whose price is exactly 0. Both views classify it as
  "Missing Price", with the same issues as the same book without a price. In the
  attention list of the dashboard its line reads \<open>ISBN: 97801346859910\<close>, while the line
  of the same book with the price \<open>null\<close> or \<open>undefined\<close> reads \<open>ISBN: 9780134685991\<close>: the
  zero price is told apart from the absent one.
\<close>

theorem zero_price_shown_in_attention_line:
  "packt_price free_book = Val (Finite 0) \<and>
   ''Missing Price'' \<in> set (getAttentionIssues free_book) \<and>
   free_book \<in> set (missing_price (booksByIssue [free_book])) \<and>
   getAttentionIssues free_book = getAttentionIssues (free_book\<lparr>packt_price := Null\<rparr>) \<and>
   attention_line free_book = Inr ''ISBN: 97801346859910'' \<and>
   attention_line (free_book\<lparr>packt_price := Null\<rparr>) = Inr ''ISBN: 9780134685991'' \<and>
   attention_line (free_book\<lparr>packt_price := Undefined\<rparr>) = Inr ''ISBN: 9780134685991''"
proof -
  have p: "packt_price free_book = Val (Finite 0)" by (simp add: free_book_def)
  have z: "free_book\<lparr>packt_price := Val (Finite 0)\<rparr> = free_book" by (simp add: free_book_def)
  have i: "isbn free_book = ''9780134685991''" by (simp add: free_book_def)
  note classified = zero_price_is_missing_price [of free_book "[free_book]", unfolded z]
  have c1: "''Missing Price'' \<in> set (getAttentionIssues free_book)"
    using classified p by blast
  have c2: "free_book \<in> set (missing_price (booksByIssue [free_book]))"
    using conjunct1 [OF conjunct2 [OF classified]] p by simp
  have c3: "getAttentionIssues free_book =
    getAttentionIssues (free_book\<lparr>packt_price := Null\<rparr>)"
    using classified by blast
  from attention_line_by_price [of free_book]
  have l: "attention_line free_book = Inr ''ISBN: 97801346859910''"
    "attention_line (free_book\<lparr>packt_price := Null\<rparr>) = Inr ''ISBN: 9780134685991''"
    "attention_line (free_book\<lparr>packt_price := Undefined\<rparr>) = Inr ''ISBN: 9780134685991''"
    unfolding z i by simp_all
  from p c1 c2 c3 l show ?thesis by blast
qed

subsection \<open>C7: the only write is the acknowledge\<close>

lemmas api_defs =
  booksAPI_list_def booksAPI_getByISBN_def booksAPI_getPriceHistory_def
  alertsAPI_list_def alertsAPI_getActive_def alertsAPI_get_def alertsAPI_acknowledge_def
  statsAPI_getDashboard_def statsAPI_getPriceTrends_def statsAPI_getComparison_def
  statsAPI_getPriceDistribution_def statsAPI_getDataQuality_def
  statsAPI_getRecentActivity_def syncAPI_getStatus_def syncAPI_getHistory_def

text \<open>
  C7. Of all the calls the API client exports, exactly the alert acknowledge issues a
  writing request (a POST to \<open>/api/alerts/{id}/acknowledge\<close>); every other call issues a
  GET, a read. Of the hooks, exactly \<open>useAcknowledgeAlert\<close> is a mutation, and it is the
  one that wraps the writing call.
\<close>

theorem acknowledge_is_the_only_write:
  "(is_write (issue c) \<longleftrightarrow> (\<exists>i. c = Alerts_acknowledge i)) \<and>
   (is_read (issue c) \<longleftrightarrow> (\<forall>i. c \<noteq> Alerts_acknowledge i)) \<and>
   issue (Alerts_acknowledge i) =
     \<lparr>verb = POST, url = [Lit ''/api/alerts/'', NumArg i, Lit ''/acknowledge''],
      query = [], response_type = Alert_t\<rparr> \<and>
   (fst (hook_call h) = Mutation \<longleftrightarrow> is_write (issue (snd (hook_call h)))) \<and>
   (fst (hook_call h) = Mutation \<longleftrightarrow> (\<exists>i. h = useAcknowledgeAlert i))"
proof (intro conjI)
  show "is_write (issue c) \<longleftrightarrow> (\<exists>i. c = Alerts_acknowledge i)"
    by (cases c) (simp_all add: is_write_def api_defs)
  show "is_read (issue c) \<longleftrightarrow> (\<forall>i. c \<noteq> Alerts_acknowledge i)"
    by (cases c) (simp_all add: is_read_def api_defs)
  show "issue (Alerts_acknowledge i) =
     \<lparr>verb = POST, url = [Lit ''/api/alerts/'', NumArg i, Lit ''/acknowledge''],
      query = [], response_type = Alert_t\<rparr>"
    by (simp add: alertsAPI_acknowledge_def)
  show "fst (hook_call h) = Mutation \<longleftrightarrow> is_write (issue (snd (hook_call h)))"
    by (cases h) (simp_all add: is_write_def api_defs)
  show "fst (hook_call h) = Mutation \<longleftrightarrow> (\<exists>i. h = useAcknowledgeAlert i)"
    by (cases h) simp_all
qed

text \<open>The acknowledge of alert 5 writes; the lookup of alert 5 and the sync history read.\<close>

theorem acknowledge_is_the_only_write_witness:
  "is_write (issue (Alerts_acknowledge (Finite 5))) \<and>
   is_read (issue (Alerts_get (Finite 5))) \<and>
   \<not> is_write (issue (Sync_getHistory None)) \<and>
   fst (hook_call (useAcknowledgeAlert (Finite 5))) = Mutation \<and>
   fst (hook_call (useAlert (Finite 5))) = Query"
proof -
  have q: "fst (hook_call (useAlert (Finite 5))) = Query" by simp
  from acknowledge_is_the_only_write [of "Alerts_acknowledge (Finite 5)" "Finite 5"
      "useAcknowledgeAlert (Finite 5)"]
    acknowledge_is_the_only_write [of "Alerts_get (Finite 5)"]
    acknowledge_is_the_only_write [of "Sync_getHistory None"] q
  show ?thesis by simp
qed

subsection \<open>C2: what the list endpoints return\<close>

lemma conforms_interface:
  "conforms (TInterface fs) j \<longleftrightarrow>
     (\<exists>kv. j = JObject kv \<and>
        (\<forall>(name, t) \<in> set fs. case map_of kv name of None \<Rightarrow> is_optional t | Some v \<Rightarrow> conforms t v))"
  by (cases j) (auto simp: list_all_iff)

lemma conforms_number: "conforms TNumber v \<longleftrightarrow> (\<exists>n. v = JNumber n)"
  by (cases v) simp_all

lemma conforms_string: "conforms TString v \<longleftrightarrow> (\<exists>n. v = JString n)"
  by (cases v) simp_all

lemma conforms_array: "conforms (TArray t) v \<longleftrightarrow> (\<exists>js. v = JArray js \<and> list_all (conforms t) js)"
  by (cases v) simp_all

lemma field_number:
  "(case map_of kv name of None \<Rightarrow> is_optional TNumber | Some v \<Rightarrow> conforms TNumber v) \<longleftrightarrow>
   is_number (map_of kv name)"
  by (auto simp: is_number_def conforms_number split: option.splits json.splits)

lemma field_array:
  "(case map_of kv name of None \<Rightarrow> is_optional (TArray t) | Some v \<Rightarrow> conforms (TArray t) v) \<Longrightarrow>
   is_array (map_of kv name)"
  by (auto simp: is_array_def conforms_array split: option.splits json.splits)

lemma BookListResponse_five_tuple:
  "conforms BookListResponse_t j \<Longrightarrow> five_tuple ''books'' j"
  unfolding BookListResponse_t_def
  by (cases j) (auto simp: five_tuple_def field_number dest: field_array)

lemma AlertListResponse_five_tuple:
  "conforms AlertListResponse_t j \<Longrightarrow> five_tuple ''alerts'' j"
  unfolding AlertListResponse_t_def
  by (cases j) (auto simp: five_tuple_def field_number dest: field_array)

lemma SyncHistoryListResponse_two_tuple:
  "conforms SyncHistoryListResponse_t j \<Longrightarrow> items_and_total ''history'' j"
  unfolding SyncHistoryListResponse_t_def
  by (cases j) (auto simp: items_and_total_def field_number dest: field_array)

text \<open>The chart iterates over an array and over nothing else.\<close>

lemma chart_reads_array:
  "PriceHistoryChart_reading (Val (JArray items)) =
     (if items = [] then NoPriceHistory else Iterates items)"
  by (simp add: PriceHistoryChart_reading_def)

lemma chart_iterates_only_arrays:
  "PriceHistoryChart_reading h = Iterates items \<Longrightarrow> h = Val (JArray items)"
  by (auto simp: PriceHistoryChart_reading_def split: js_opt.splits json.splits if_splits)

lemma five_tuple_is_object: "five_tuple items j \<Longrightarrow> \<exists>kv. j = JObject kv"
  by (cases j) (simp_all add: five_tuple_def)

text \<open>
  C2, as the code has it. Every response of the declared type of the book listing and of
  the two alert listings carries the five-tuple (items, total, page, limit, total pages).
  The sync-history listing is declared with the items and the total count and with no
  other property, so a response of its declared type carries these two; its request
  sends a limit and nothing else. The price-history listing by book is declared as the
  bare array of items, and the chart reads it as such: it iterates over the response
  itself, and over no five-tuple, which is no array; its request sends a limit and
  nothing else.
\<close>

theorem list_responses_shapes:
  "(conforms (response_type (issue (Books_list ps))) j \<longrightarrow> five_tuple ''books'' j) \<and>
   (conforms (response_type (issue (Alerts_list ps))) j \<longrightarrow> five_tuple ''alerts'' j) \<and>
   (conforms (response_type (issue (Alerts_getActive pg lm))) j \<longrightarrow> five_tuple ''alerts'' j) \<and>
   response_type (issue (Sync_getHistory lm)) =
     TInterface [(''history'', TArray SyncHistory_t), (''total'', TNumber)] \<and>
   (conforms (response_type (issue (Sync_getHistory lm))) j \<longrightarrow> items_and_total ''history'' j) \<and>
   query (issue (Sync_getHistory lm)) = [(''limit'', Val (PNum (with_default (Finite 50) lm)))] \<and>
   response_type (issue (Books_getPriceHistory b lm)) = TArray PriceHistory_t \<and>
   (conforms (response_type (issue (Books_getPriceHistory b lm))) j \<longrightarrow>
      (\<exists>items. j = JArray items \<and> list_all (conforms PriceHistory_t) items \<and>
         PriceHistoryChart_reading (Val j) =
           (if items = [] then NoPriceHistory else Iterates items))) \<and>
   query (issue (Books_getPriceHistory b lm)) =
     [(''limit'', Val (PNum (with_default (Finite 100) lm)))] \<and>
   (five_tuple property_name j \<longrightarrow>
      \<not> conforms (response_type (issue (Books_getPriceHistory b lm))) j \<and>
      (\<forall>items. PriceHistoryChart_reading (Val j) \<noteq> Iterates items))"
proof (intro conjI impI allI)
  show "five_tuple ''books'' j" if "conforms (response_type (issue (Books_list ps))) j"
    using that by (simp add: booksAPI_list_def BookListResponse_five_tuple)
  show "five_tuple ''alerts'' j" if "conforms (response_type (issue (Alerts_list ps))) j"
    using that by (simp add: alertsAPI_list_def AlertListResponse_five_tuple)
  show "five_tuple ''alerts'' j"
    if "conforms (response_type (issue (Alerts_getActive pg lm))) j"
    using that by (simp add: alertsAPI_getActive_def AlertListResponse_five_tuple)
  show "response_type (issue (Sync_getHistory lm)) =
     TInterface [(''history'', TArray SyncHistory_t), (''total'', TNumber)]"
    by (simp add: syncAPI_getHistory_def SyncHistoryListResponse_t_def)
  show "items_and_total ''history'' j"
    if "conforms (response_type (issue (Sync_getHistory lm))) j"
    using that by (simp add: syncAPI_getHistory_def SyncHistoryListResponse_two_tuple)
  show "query (issue (Sync_getHistory lm)) =
      [(''limit'', Val (PNum (with_default (Finite 50) lm)))]"
    by (simp add: syncAPI_getHistory_def)
  show "response_type (issue (Books_getPriceHistory b lm)) = TArray PriceHistory_t"
    by (simp add: booksAPI_getPriceHistory_def)
  show "\<exists>items. j = JArray items \<and> list_all (conforms PriceHistory_t) items \<and>
      PriceHistoryChart_reading (Val j) = (if items = [] then NoPriceHistory else Iterates items)"
    if "conforms (response_type (issue (Books_getPriceHistory b lm))) j"
  proof -
    from that have "conforms (TArray PriceHistory_t) j"
      by (simp add: booksAPI_getPriceHistory_def)
    then obtain items where "j = JArray items" "list_all (conforms PriceHistory_t) items"
      unfolding conforms_array by blast
    then show ?thesis using chart_reads_array [of items] by blast
  qed
  show "query (issue (Books_getPriceHistory b lm)) =
      [(''limit'', Val (PNum (with_default (Finite 100) lm)))]"
    by (simp add: booksAPI_getPriceHistory_def)
  show "\<not> conforms (response_type (issue (Books_getPriceHistory b lm))) j"
    if "five_tuple property_name j"
    using five_tuple_is_object [OF that]
    by (auto simp: booksAPI_getPriceHistory_def)
  show "PriceHistoryChart_reading (Val j) \<noteq> Iterates items"
    if "five_tuple property_name j" for items
    using five_tuple_is_object [OF that] chart_iterates_only_arrays [of "Val j" items]
    by auto
qed

text \<open>
  Empty listings of books, alerts and sync runs have their declared types and these
  shapes; the chart iterates over a price history of one entry, and not over the
  five-tuple that wraps the same entry.
\<close>

theorem list_responses_shapes_witness:
  "conforms (response_type (issue (Books_list []))) empty_book_page \<and>
   five_tuple ''books'' empty_book_page \<and>
   conforms (response_type (issue (Alerts_list []))) empty_alert_page \<and>
   conforms (response_type (issue (Alerts_getActive None None))) empty_alert_page \<and>
   five_tuple ''alerts'' empty_alert_page \<and>
   conforms (response_type (issue (Sync_getHistory None))) empty_sync_history \<and>
   items_and_total ''history'' empty_sync_history \<and>
   query (issue (Sync_getHistory None)) = [(''limit'', Val (PNum (Finite 50)))] \<and>
   conforms (response_type (issue (Books_getPriceHistory (Finite 7) None)))
     example_price_history \<and>
   PriceHistoryChart_reading (Val example_price_history) = Iterates [example_price_entry] \<and>
   query (issue (Books_getPriceHistory (Finite 7) None)) =
     [(''limit'', Val (PNum (Finite 100)))] \<and>
   five_tuple ''items'' five_tuple_price_history \<and>
   \<not> conforms (response_type (issue (Books_getPriceHistory (Finite 7) None)))
     five_tuple_price_history \<and>
   PriceHistoryChart_reading (Val five_tuple_price_history) \<noteq> Iterates [example_price_entry]"
proof -
  have b: "conforms (response_type (issue (Books_list []))) empty_book_page"
    by (simp add: booksAPI_list_def BookListResponse_t_def empty_book_page_def)
  have a: "conforms (response_type (issue (Alerts_list []))) empty_alert_page"
    "conforms (response_type (issue (Alerts_getActive None None))) empty_alert_page"
    by (simp_all add: alertsAPI_list_def alertsAPI_getActive_def AlertListResponse_t_def
        empty_alert_page_def)
  have s: "conforms (response_type (issue (Sync_getHistory None))) empty_sync_history"
    by (simp add: syncAPI_getHistory_def SyncHistoryListResponse_t_def empty_sync_history_def)
  have p: "conforms (response_type (issue (Books_getPriceHistory (Finite 7) None)))
      example_price_history"
    by (simp add: booksAPI_getPriceHistory_def example_price_history_def
        example_price_entry_def PriceHistory_t_def nullable_def)
  have f: "five_tuple ''items'' five_tuple_price_history"
    by (simp add: five_tuple_def five_tuple_price_history_def is_array_def is_number_def)
  have d: "with_default (Finite 50) None = Finite 50" "with_default (Finite 100) None = Finite 100"
    by (simp_all add: with_default_def)
  from list_responses_shapes [of "[]" empty_book_page] b
  have t1: "five_tuple ''books'' empty_book_page" by blast
  from list_responses_shapes [of "[]" empty_alert_page None None] a
  have t2: "five_tuple ''alerts'' empty_alert_page" by blast
  from list_responses_shapes [of "[]" empty_sync_history None None] s
  have t3: "items_and_total ''history'' empty_sync_history"
    and t4: "query (issue (Sync_getHistory None)) = [(''limit'', Val (PNum (Finite 50)))]"
    unfolding d by blast+
  from list_responses_shapes [of "[]" example_price_history None None "Finite 7"] p
  have t5: "PriceHistoryChart_reading (Val example_price_history) =
      Iterates [example_price_entry]"
    and t6: "query (issue (Books_getPriceHistory (Finite 7) None)) =
      [(''limit'', Val (PNum (Finite 100)))]"
    unfolding d by (auto simp: example_price_history_def)
  from list_responses_shapes [of "[]" five_tuple_price_history None None "Finite 7" "''items''"] f
  have t7: "\<not> conforms (response_type (issue (Books_getPriceHistory (Finite 7) None)))
      five_tuple_price_history"
    and t8: "PriceHistoryChart_reading (Val five_tuple_price_history) \<noteq>
      Iterates [example_price_entry]"
    by blast+
  from b t1 a t2 s t3 t4 p t5 t6 f t7 t8 show ?thesis by blast
qed

text \<open>
  C2 as stated fails for the price-history listing. The chart calls \<open>forEach\<close> on the
  response itself: a price history of one entry is the array of that entry, has the
  declared type \<open>PriceHistory[]\<close>, carries no \<open>total\<close>, \<open>page\<close>, \<open>limit\<close> or \<open>total_pages\<close>, and
  is iterated over; the five-tuple that wraps the same entry has not the declared type,
  and on it the chart throws a TypeError. For the sync-history listing the type the
  dashboard declares, \<open>SyncHistoryListResponse\<close>, asks for no \<open>page\<close>, \<open>limit\<close> or
  \<open>total_pages\<close>: the empty sync history \<open>{history: [], total: 0}\<close> has this type.
\<close>

theorem list_five_tuple_counterexample:
  "conforms (response_type (issue (Books_getPriceHistory (Finite 7) None)))
     example_price_history \<and>
   PriceHistoryChart_reading (Val example_price_history) = Iterates [example_price_entry] \<and>
   \<not> five_tuple ''items'' example_price_history \<and>
   \<not> has_property ''total'' example_price_history \<and>
   \<not> has_property ''page'' example_price_history \<and>
   \<not> has_property ''limit'' example_price_history \<and>
   \<not> has_property ''total_pages'' example_price_history \<and>
   five_tuple ''items'' five_tuple_price_history \<and>
   \<not> conforms (response_type (issue (Books_getPriceHistory (Finite 7) None)))
     five_tuple_price_history \<and>
   PriceHistoryChart_reading (Val five_tuple_price_history) = ThrowsTypeError \<and>
   conforms (response_type (issue (Sync_getHistory None))) empty_sync_history \<and>
   \<not> has_property ''page'' empty_sync_history \<and>
   \<not> has_property ''limit'' empty_sync_history \<and>
   \<not> has_property ''total_pages'' empty_sync_history \<and>
   \<not> five_tuple ''history'' empty_sync_history"
proof -
  have p: "conforms (response_type (issue (Books_getPriceHistory (Finite 7) None)))
      example_price_history"
    by (simp add: booksAPI_getPriceHistory_def example_price_history_def
        example_price_entry_def PriceHistory_t_def nullable_def)
  have r: "PriceHistoryChart_reading (Val example_price_history) =
      Iterates [example_price_entry]"
    by (simp add: PriceHistoryChart_reading_def example_price_history_def)
  have n: "\<not> five_tuple ''items'' example_price_history"
    "\<not> has_property ''total'' example_price_history"
    "\<not> has_property ''page'' example_price_history"
    "\<not> has_property ''limit'' example_price_history"
    "\<not> has_property ''total_pages'' example_price_history"
    by (simp_all add: example_price_history_def five_tuple_def has_property_def)
  have f: "five_tuple ''items'' five_tuple_price_history"
    by (simp add: five_tuple_def five_tuple_price_history_def is_array_def is_number_def)
  have c: "\<not> conforms (response_type (issue (Books_getPriceHistory (Finite 7) None)))
      five_tuple_price_history"
    by (simp add: booksAPI_getPriceHistory_def five_tuple_price_history_def)
  have t: "PriceHistoryChart_reading (Val five_tuple_price_history) = ThrowsTypeError"
    by (simp add: PriceHistoryChart_reading_def five_tuple_price_history_def)
  have s: "conforms (response_type (issue (Sync_getHistory None))) empty_sync_history"
    "\<not> has_property ''page'' empty_sync_history"
    "\<not> has_property ''limit'' empty_sync_history"
    "\<not> has_property ''total_pages'' empty_sync_history"
    "\<not> five_tuple ''history'' empty_sync_history"
    by (simp_all add: syncAPI_getHistory_def SyncHistoryListResponse_t_def
        empty_sync_history_def has_property_def five_tuple_def is_number_def)
  from p r n f c t s show ?thesis by blast
qed

subsection \<open>C8: the shape of a Book\<close>

lemma map_of_nulls:
  "(map_of kv ++ map_of (map (\<lambda>n. (n, JNull)) names)) name =
     (if name \<in> set names then Some JNull else map_of kv name)"
  by (induction names) (auto simp: map_add_def)

lemma conforms_Book_t:
  "conforms Book_t j \<longleftrightarrow>
     (\<exists>kv. j = JObject kv \<and>
        (\<exists>n. map_of kv ''id'' = Some (JNumber n)) \<and>
        (\<exists>s. map_of kv ''isbn'' = Some (JString s)) \<and>
        (\<exists>v. map_of kv ''title'' = Some v \<and> conforms (nullable TString) v) \<and>
        (\<exists>v. map_of kv ''author'' = Some v \<and> conforms (nullable TString) v) \<and>
        (\<exists>v. map_of kv ''packt_price'' = Some v \<and> conforms (nullable TNumber) v) \<and>
        (\<exists>v. map_of kv ''packt_url'' = Some v \<and> conforms (nullable TString) v) \<and>
        (\<exists>v. map_of kv ''last_updated'' = Some v \<and> conforms (nullable TString) v) \<and>
        (\<exists>v. map_of kv ''created_at'' = Some v \<and> conforms (nullable TString) v))"
  unfolding Book_t_def
  by (cases j) (auto simp: nullable_def split: option.splits json.splits)

lemma conforms_nullable_JNull: "conforms (nullable t) JNull"
  by (simp add: nullable_def)

text \<open>
  C8. Every value of the declared type \<open>Book\<close> carries an \<open>isbn\<close> that is a string, never
  \<open>null\<close>: setting it to \<open>null\<close> leaves the type. Each of title, author, tracked price,
  source URL and last-updated timestamp is nullable independently of the others: setting
  any subset of them to \<open>null\<close> gives a value of type \<open>Book\<close> again, with the same \<open>isbn\<close>.
\<close>

theorem Book_isbn_required_others_nullable:
  assumes "conforms Book_t j" and "set names \<subseteq> set book_nullable_fields"
  shows "(\<exists>s. property ''isbn'' j = Some (JString s)) \<and>
    conforms Book_t (set_null names j) \<and>
    (\<forall>n \<in> set names. property n (set_null names j) = Some JNull) \<and>
    property ''isbn'' (set_null names j) = property ''isbn'' j \<and>
    \<not> conforms Book_t (set_null [''isbn''] j)"
proof -
  from assms(1) obtain kv where j: "j = JObject kv" and c: "conforms Book_t (JObject kv)"
    by (auto simp: conforms_Book_t)
  have not_in: "''id'' \<notin> set names" "''isbn'' \<notin> set names" "''created_at'' \<notin> set names"
    using assms(2) by (auto simp: book_nullable_fields_def)
  have isbn: "\<exists>s. property ''isbn'' j = Some (JString s)"
    using c by (simp add: conforms_Book_t j property_def)
  have keep: "conforms Book_t (set_null names j)"
    using c not_in unfolding j set_null_def
    by (simp add: conforms_Book_t map_of_nulls conforms_nullable_JNull)
  have nulls: "\<forall>n \<in> set names. property n (set_null names j) = Some JNull"
    by (simp add: j set_null_def property_def map_of_nulls)
  have same: "property ''isbn'' (set_null names j) = property ''isbn'' j"
    using not_in by (simp add: j set_null_def property_def map_of_nulls)
  have no_null: "\<not> conforms Book_t (set_null [''isbn''] j)"
    by (simp add: j set_null_def conforms_Book_t)
  from isbn keep nulls same no_null show ?thesis by blast
qed

text \<open>A complete book, and the same book with its title and price set to \<open>null\<close>.\<close>

theorem Book_isbn_required_others_nullable_witness:
  "conforms Book_t example_book_json \<and>
   set [''title'', ''packt_price''] \<subseteq> set book_nullable_fields \<and>
   property ''isbn'' example_book_json = Some (JString ''9780134685991'') \<and>
   conforms Book_t (set_null [''title'', ''packt_price''] example_book_json) \<and>
   property ''title'' (set_null [''title'', ''packt_price''] example_book_json) = Some JNull \<and>
   property ''packt_price'' (set_null [''title'', ''packt_price''] example_book_json) = Some JNull \<and>
   \<not> conforms Book_t (set_null [''isbn''] example_book_json)"
proof -
  have c: "conforms Book_t example_book_json"
    by (simp add: Book_t_def example_book_json_def nullable_def)
  have s: "set [''title'', ''packt_price''] \<subseteq> set book_nullable_fields"
    by (simp add: book_nullable_fields_def)
  have i: "property ''isbn'' example_book_json = Some (JString ''9780134685991'')"
    by (simp add: property_def example_book_json_def)
  from Book_isbn_required_others_nullable [OF c s] c s i
  show ?thesis by simp
qed

subsection \<open>C3: acknowledging is idempotent\<close>

lemma acknowledge_status_idem: "acknowledge_status (acknowledge_status x) = acknowledge_status x"
  by (cases x) simp_all

lemma acknowledge_status_Acknowledged: "acknowledge_status x = Acknowledged"
  by (cases x) simp_all

lemma acknowledge_idem: "acknowledge (acknowledge a) = acknowledge a"
  by (simp add: acknowledge_def acknowledge_status_idem)

lemma acknowledge_noop: "al_status a = Acknowledged \<Longrightarrow> acknowledge a = a"
  by (simp add: acknowledge_def)

text \<open>
  C3. For every alert of the table, the acknowledge action returns without error and
  leaves the alert \<open>acknowledged\<close>; acknowledging it again returns the same alert and the
  same table, so two acknowledges equal one. On an alert that is already \<open>acknowledged\<close>
  the action changes nothing.
\<close>

theorem acknowledge_idempotent_total:
  assumes "i < length als"
  shows "(\<exists>als' a. acknowledge_alert i als = Inr (als', a) \<and>
            al_status a = Acknowledged \<and> length als' = length als \<and>
            al_status (als' ! i) = Acknowledged \<and>
            acknowledge_alert i als' = Inr (als', a)) \<and>
    (al_status (als ! i) = Acknowledged \<longrightarrow> acknowledge_alert i als = Inr (als, als ! i)) \<and>
    acknowledge (acknowledge (als ! i)) = acknowledge (als ! i)"
proof (intro conjI impI)
  let ?a = "acknowledge (als ! i)"
  let ?als = "als[i := ?a]"
  have first: "acknowledge_alert i als = Inr (?als, ?a)"
    using assms by (simp add: acknowledge_alert_def)
  have st: "al_status ?a = Acknowledged"
    by (simp add: acknowledge_def acknowledge_status_Acknowledged)
  have again: "acknowledge_alert i ?als = Inr (?als, ?a)"
    using assms by (simp add: acknowledge_alert_def acknowledge_idem)
  show "\<exists>als' a. acknowledge_alert i als = Inr (als', a) \<and>
            al_status a = Acknowledged \<and> length als' = length als \<and>
            al_status (als' ! i) = Acknowledged \<and>
            acknowledge_alert i als' = Inr (als', a)"
    using first st again assms by (intro exI [of _ ?als] exI [of _ ?a]) simp
  show "acknowledge_alert i als = Inr (als, als ! i)" if "al_status (als ! i) = Acknowledged"
    using assms that by (simp add: acknowledge_alert_def acknowledge_noop)
  show "acknowledge (acknowledge (als ! i)) = acknowledge (als ! i)"
    by (rule acknowledge_idem)
qed

text \<open>A \<open>sent\<close> alert acknowledged once and twice.\<close>

theorem acknowledge_idempotent_total_witness:
  "(0::nat) < length [sent_alert] \<and>
   acknowledge_alert 0 [sent_alert] =
     Inr ([sent_alert\<lparr>al_status := Acknowledged\<rparr>], sent_alert\<lparr>al_status := Acknowledged\<rparr>) \<and>
   acknowledge_alert 0 [sent_alert\<lparr>al_status := Acknowledged\<rparr>] =
     Inr ([sent_alert\<lparr>al_status := Acknowledged\<rparr>], sent_alert\<lparr>al_status := Acknowledged\<rparr>)"
proof -
  have l: "(0::nat) < length [sent_alert]" by simp
  have one: "acknowledge_alert 0 [sent_alert] =
     Inr ([sent_alert\<lparr>al_status := Acknowledged\<rparr>], sent_alert\<lparr>al_status := Acknowledged\<rparr>)"
    by (simp add: acknowledge_alert_def acknowledge_def sent_alert_def)
  from acknowledge_idempotent_total [OF l] one l
  show ?thesis by auto
qed

subsection \<open>C5: a cycle on identical feed content\<close>

lemma first_cycle_outcome: "snd first_cycle = Completed 1 1 0"
  by (simp add: first_cycle_def run_cycle_def synchronize_def sync_record_def find_book_def
      example_parse_def empty_store_def no_later_stages_def)

text \<open>
  C5. After a cycle on some feed content that the store did not fail, a further cycle on
  the same content, whatever its other inputs, ends as unchanged: it inserts no row,
  updates no row, and leaves the store, the last-accepted fingerprint included, as it was.
\<close>

theorem rerun_identical_feed_is_noop:
  assumes "run_cycle fingerprint parse later filename now True (Some content) st = (st1, out1)"
  shows "run_cycle fingerprint parse' later' filename' now' ok (Some content) st1 = (st1, Unchanged) \<and>
    rows_inserted (snd (run_cycle fingerprint parse' later' filename' now' ok (Some content) st1)) = 0 \<and>
    rows_updated (snd (run_cycle fingerprint parse' later' filename' now' ok (Some content) st1)) = 0 \<and>
    last_fingerprint (fst (run_cycle fingerprint parse' later' filename' now' ok (Some content) st1)) =
      last_fingerprint st1 \<and>
    last_fingerprint st1 = Some (fingerprint content)"
proof -
  have fp: "last_fingerprint st1 = Some (fingerprint content)"
    using assms by (auto simp: run_cycle_def split: if_splits prod.splits)
  then have again: "run_cycle fingerprint parse' later' filename' now' ok (Some content) st1 = (st1, Unchanged)"
    by (simp add: run_cycle_def)
  show ?thesis using fp again by simp
qed

text \<open>The first cycle on the one-row feed inserts one row; the second does nothing.\<close>

theorem rerun_identical_feed_is_noop_witness:
  "run_cycle example_fingerprint example_parse no_later_stages ''packt_books.csv'' 100 True
     (Some example_feed) empty_store = first_cycle \<and>
   snd first_cycle = Completed 1 1 0 \<and>
   run_cycle example_fingerprint example_parse no_later_stages ''packt_books.csv'' 200 True
     (Some example_feed) (fst first_cycle) = (fst first_cycle, Unchanged)"
proof -
  have h: "run_cycle example_fingerprint example_parse no_later_stages ''packt_books.csv'' 100 True
     (Some example_feed) empty_store = (fst first_cycle, snd first_cycle)"
    by (simp add: first_cycle_def)
  have d: "run_cycle example_fingerprint example_parse no_later_stages ''packt_books.csv'' 100 True
     (Some example_feed) empty_store = first_cycle"
    by (simp add: first_cycle_def)
  note t = rerun_identical_feed_is_noop [OF h, of example_parse no_later_stages
      "''packt_books.csv''" 200 True]
  from t have "run_cycle example_fingerprint example_parse no_later_stages ''packt_books.csv''
      200 True (Some example_feed) (fst first_cycle) = (fst first_cycle, Unchanged)"
    by (rule conjunct1)
  with d first_cycle_outcome show ?thesis by (intro conjI)
qed


subsection \<open>C6: when a crossing occurs\<close>

lemma is_crossing_iff:
  assumes "0 \<le> q"
  shows "is_crossing pol p q \<longleftrightarrow>
    q < p \<and> (case policy_type pol of
               Percentage \<Rightarrow> policy_value pol * p \<le> (p - q) * 100
             | Absolute \<Rightarrow> policy_value pol \<le> p - q)"
proof (cases "q < p")
  case True
  with assms have "0 < p" by simp
  then have "policy_value pol \<le> (p - q) / p * 100 \<longleftrightarrow> policy_value pol * p \<le> (p - q) * 100"
    by (simp add: field_simps)
  with True show ?thesis
    by (simp add: is_crossing_def price_delta_def threshold_met_def split: threshold_kind.split)
next
  case False
  then show ?thesis by (simp add: is_crossing_def price_delta_def)
qed

text \<open>
  C6. For every book with a tracked price \<open>p\<close> and every recent third-party observation
  with a price \<open>q\<close> (not negative), the comparator reports a crossing exactly when the
  delta \<open>p - q\<close> is positive and is at least the threshold: the given percentage of \<open>p\<close>,
  or the given flat amount. A delta equal to the threshold is a crossing. The alert manager
  then creates one Alert when there is a crossing and the cooldown of the pair is not
  active, and none otherwise.
\<close>

theorem crossing_iff_positive_delta_and_threshold:
  assumes "bk_tracked_price b = Some p" and "ph_price obs = Some q"
    and "third_party_recent cfg now b obs" and "0 \<le> q"
  shows "(compare_observation cfg now b obs \<noteq> None \<longleftrightarrow>
      0 < price_delta p q \<and>
      (case policy_type (cfg_threshold cfg) of
         Percentage \<Rightarrow> policy_value (cfg_threshold cfg) * p \<le> price_delta p q * 100
       | Absolute \<Rightarrow> policy_value (cfg_threshold cfg) \<le> price_delta p q)) \<and>
    (length (check_observation cfg now d b obs als) =
      length als +
      (if compare_observation cfg now b obs \<noteq> None \<and>
          \<not> cooldown_active (cfg_cooldown cfg) als (bk_isbn b) (ph_source obs) now
       then 1 else 0)) \<and>
    (0 < price_delta p q \<and> policy_type (cfg_threshold cfg) = Absolute \<and>
       policy_value (cfg_threshold cfg) = price_delta p q \<longrightarrow>
       compare_observation cfg now b obs \<noteq> None) \<and>
    (0 < price_delta p q \<and> policy_type (cfg_threshold cfg) = Percentage \<and>
       policy_value (cfg_threshold cfg) * p = price_delta p q * 100 \<longrightarrow>
       compare_observation cfg now b obs \<noteq> None)"
proof -
  have c: "compare_observation cfg now b obs \<noteq> None \<longleftrightarrow> is_crossing (cfg_threshold cfg) p q"
    using assms(1-3) by (simp add: compare_observation_def)
  have d: "price_delta p q = p - q" by (simp add: price_delta_def)
  have i: "compare_observation cfg now b obs \<noteq> None \<longleftrightarrow>
      0 < price_delta p q \<and>
      (case policy_type (cfg_threshold cfg) of
         Percentage \<Rightarrow> policy_value (cfg_threshold cfg) * p \<le> price_delta p q * 100
       | Absolute \<Rightarrow> policy_value (cfg_threshold cfg) \<le> price_delta p q)"
    unfolding c d using is_crossing_iff [OF assms(4), of "cfg_threshold cfg" p] by simp
  have l: "length (check_observation cfg now d b obs als) =
      length als +
      (if compare_observation cfg now b obs \<noteq> None \<and>
          \<not> cooldown_active (cfg_cooldown cfg) als (bk_isbn b) (ph_source obs) now
       then 1 else 0)"
    using assms(1-3)
    by (simp add: check_observation_def compare_observation_def on_crossing_def)
  show ?thesis
    unfolding i using i l by simp
qed

text \<open>
  Tracked price 30.00 and a threshold of 10 percent: an observation of 26.00 creates an
  Alert, one of 27.50 creates none, and one of 27.00 (exactly 10 percent) creates one.
\<close>

theorem crossing_iff_positive_delta_and_threshold_witness:
  "bk_tracked_price thirty_dollar_book = Some 30 \<and>
   ph_price (observed_at_price 26) = Some 26 \<and>
   third_party_recent ten_percent 1000 thirty_dollar_book (observed_at_price 26) \<and>
   (0::rat) \<le> 26 \<and>
   compare_observation ten_percent 1000 thirty_dollar_book (observed_at_price 26) \<noteq> None \<and>
   length (check_observation ten_percent 1000 True thirty_dollar_book (observed_at_price 26) []) = 1 \<and>
   compare_observation ten_percent 1000 thirty_dollar_book (observed_at_price (55 / 2)) = None \<and>
   check_observation ten_percent 1000 True thirty_dollar_book (observed_at_price (55 / 2)) [] = [] \<and>
   compare_observation ten_percent 1000 thirty_dollar_book (observed_at_price 27) \<noteq> None \<and>
   length (check_observation ten_percent 1000 True thirty_dollar_book (observed_at_price 27) []) = 1"
proof -
  have b: "bk_tracked_price thirty_dollar_book = Some 30"
    by (simp add: thirty_dollar_book_def)
  have o: "ph_price (observed_at_price q) = Some q" for q
    by (simp add: observed_at_price_def)
  have r: "third_party_recent ten_percent 1000 thirty_dollar_book (observed_at_price q)" for q
    by (simp add: third_party_recent_def ten_percent_def thirty_dollar_book_def
        observed_at_price_def tracked_source_def)
  have pol: "policy_type (cfg_threshold ten_percent) = Percentage"
    "policy_value (cfg_threshold ten_percent) = 10"
    by (simp_all add: ten_percent_def)
  have q26: "(0::rat) \<le> 26" and q275: "(0::rat) \<le> 55 / 2" and q27: "(0::rat) \<le> 27"
    by simp_all
  have idle: "\<not> cooldown_active cd [] i src t" for cd i src t
    by (simp add: cooldown_active_def last_trigger_def)
  note t26 = crossing_iff_positive_delta_and_threshold [OF b o r q26, of True "[]"]
  note t275 = crossing_iff_positive_delta_and_threshold [OF b o r q275, of True "[]"]
  note t27 = crossing_iff_positive_delta_and_threshold [OF b o r q27, of True "[]"]
  have c26: "compare_observation ten_percent 1000 thirty_dollar_book (observed_at_price 26) \<noteq> None"
    using t26 by (simp add: pol price_delta_def)
  have c275: "compare_observation ten_percent 1000 thirty_dollar_book (observed_at_price (55 / 2)) = None"
    using t275 by (simp add: pol price_delta_def)
  have c27: "compare_observation ten_percent 1000 thirty_dollar_book (observed_at_price 27) \<noteq> None"
    using t27 by (simp add: pol price_delta_def)
  have l26: "length (check_observation ten_percent 1000 True thirty_dollar_book (observed_at_price 26) []) = 1"
    using t26 c26 idle by simp
  have l27: "length (check_observation ten_percent 1000 True thirty_dollar_book (observed_at_price 27) []) = 1"
    using t27 c27 idle by simp
  have l275: "check_observation ten_percent 1000 True thirty_dollar_book (observed_at_price (55 / 2)) [] = []"
    using t275 c275 by simp
  show ?thesis using b o r c26 c275 c27 l26 l27 l275 by simp
qed


subsection \<open>C1: the cooldown deduplicates alerts\<close>

lemma fold_max_ge: "(now::nat) < fold max ts t + cd \<longleftrightarrow> (\<exists>x \<in> set (t # ts). now < x + cd)"
proof (induction ts arbitrary: t)
  case Nil
  then show ?case by simp
next
  case (Cons u ts)
  have "now < max u t + cd \<longleftrightarrow> now < u + cd \<or> now < t + cd" by (auto simp: max_def)
  then show ?case by (auto simp: Cons.IH)
qed

lemma cooldown_active_iff:
  "cooldown_active cd als b s now \<longleftrightarrow>
     (\<exists>a \<in> set als. same_pair b s a \<and> now < al_triggered_at a + cd)"
proof (cases "map al_triggered_at (filter (same_pair b s) als)")
  case Nil
  then have "\<forall>a \<in> set als. \<not> same_pair b s a" by (auto simp: filter_empty_conv)
  with Nil show ?thesis by (auto simp: cooldown_active_def last_trigger_def)
next
  case (Cons t ts)
  have "cooldown_active cd als b s now \<longleftrightarrow> (\<exists>x \<in> set (t # ts). now < x + cd)"
    using Cons by (simp add: cooldown_active_def last_trigger_def fold_max_ge del: set_simps)
  also have "\<dots> \<longleftrightarrow> (\<exists>x \<in> set (map al_triggered_at (filter (same_pair b s) als)). now < x + cd)"
    by (simp only: Cons)
  also have "\<dots> \<longleftrightarrow> (\<exists>a \<in> set als. same_pair b s a \<and> now < al_triggered_at a + cd)"
    by auto
  finally show ?thesis .
qed

lemma trigger_key_acknowledge: "trigger_key (acknowledge a) = trigger_key a"
  by (simp add: trigger_key_def acknowledge_def)

lemma keys_acknowledge_event:
  "map trigger_key (apply_event cd als (AcknowledgeEvent i)) = map trigger_key als"
proof (cases "i < length als")
  case True
  have "map trigger_key (als[i := acknowledge (als ! i)]) =
      (map trigger_key als)[i := trigger_key (als ! i)]"
    by (simp add: map_update trigger_key_acknowledge)
  also have "\<dots> = (map trigger_key als)[i := map trigger_key als ! i]"
    using True by simp
  also have "\<dots> = map trigger_key als" by (rule list_update_id)
  finally show ?thesis using True by (simp add: acknowledge_alert_def)
next
  case False
  then show ?thesis by (simp add: acknowledge_alert_def)
qed

lemma keys_acknowledge_events:
  "map trigger_key (run_events cd (map AcknowledgeEvent acks) als) = map trigger_key als"
proof (induction acks arbitrary: als)
  case Nil
  then show ?case by (simp add: run_events_def)
next
  case (Cons i acks)
  have "run_events cd (map AcknowledgeEvent (i # acks)) als =
    run_events cd (map AcknowledgeEvent acks) (apply_event cd als (AcknowledgeEvent i))"
    by (simp add: run_events_def)
  then show ?case by (simp only: Cons.IH keys_acknowledge_event)
qed

lemma same_pair_key: "same_pair b s a \<longleftrightarrow> fst (trigger_key a) = b \<and> fst (snd (trigger_key a)) = s"
  by (simp add: same_pair_def trigger_key_def)

lemma pair_count_keys:
  "pair_count b s als = length (filter (\<lambda>k. fst k = b \<and> fst (snd k) = s) (map trigger_key als))"
proof -
  have "same_pair b s = (\<lambda>a. fst (trigger_key a) = b \<and> fst (snd (trigger_key a)) = s)"
    by (simp add: fun_eq_iff same_pair_key)
  then show ?thesis by (simp add: pair_count_def filter_map comp_def)
qed

lemma cooldown_active_keys:
  "cooldown_active cd als b s now \<longleftrightarrow>
     (\<exists>k \<in> set (map trigger_key als). fst k = b \<and> fst (snd k) = s \<and> now < snd (snd k) + cd)"
  by (auto simp: cooldown_active_iff same_pair_key trigger_key_def)

lemma separated_keys:
  "separated cd als \<longleftrightarrow>
     sorted_wrt (\<lambda>k k'. fst k = fst k' \<and> fst (snd k) = fst (snd k') \<longrightarrow>
                        snd (snd k) + cd \<le> snd (snd k')) (map trigger_key als)"
  by (simp add: separated_def sorted_wrt_map trigger_key_def)

lemma keys_eq_pair_count:
  "map trigger_key als = map trigger_key als' \<Longrightarrow> pair_count b s als = pair_count b s als'"
  by (simp add: pair_count_keys)

lemma keys_eq_cooldown_active:
  "map trigger_key als = map trigger_key als' \<Longrightarrow>
   cooldown_active cd als b s now = cooldown_active cd als' b s now"
  by (simp only: cooldown_active_keys)

lemma keys_eq_separated:
  "map trigger_key als = map trigger_key als' \<Longrightarrow> separated cd als = separated cd als'"
  by (simp only: separated_keys)

lemma pair_count_on_crossing:
  "pair_count (cr_book c) (cr_source c) (on_crossing cd d c als) =
     (if cooldown_active cd als (cr_book c) (cr_source c) (cr_time c)
      then pair_count (cr_book c) (cr_source c) als
      else pair_count (cr_book c) (cr_source c) als + 1)"
  by (simp add: on_crossing_def pair_count_def same_pair_def new_alert_def)

lemma separated_on_crossing:
  assumes "separated cd als"
  shows "separated cd (on_crossing cd d c als)"
proof (cases "cooldown_active cd als (cr_book c) (cr_source c) (cr_time c)")
  case True
  with assms show ?thesis by (simp add: on_crossing_def)
next
  case False
  then have "\<forall>a \<in> set als. same_pair (cr_book c) (cr_source c) a \<longrightarrow>
      al_triggered_at a + cd \<le> cr_time c"
    by (auto simp: cooldown_active_iff not_less)
  with assms False show ?thesis
    by (auto simp: on_crossing_def separated_def sorted_wrt_append new_alert_def same_pair_def)
qed

lemma separated_apply_event:
  assumes "separated cd als"
  shows "separated cd (apply_event cd als ev)"
proof (cases ev)
  case (CrossingEvent d c)
  with assms show ?thesis by (simp add: separated_on_crossing)
next
  case (AcknowledgeEvent i)
  have "map trigger_key (apply_event cd als ev) = map trigger_key als"
    unfolding AcknowledgeEvent by (rule keys_acknowledge_event)
  from keys_eq_separated [OF this] assms show ?thesis by simp
qed

lemma separated_run_events:
  "separated cd als \<Longrightarrow> separated cd (run_events cd evs als)"
proof (induction evs arbitrary: als)
  case Nil
  then show ?case by (simp add: run_events_def)
next
  case (Cons ev evs)
  have "run_events cd (ev # evs) als = run_events cd evs (apply_event cd als ev)"
    by (simp add: run_events_def)
  with Cons show ?case by (simp add: separated_apply_event)
qed

lemma at_most_one_filtered:
  assumes "sorted_wrt R xs"
    and "\<And>x y. Q x \<Longrightarrow> Q y \<Longrightarrow> \<not> R x y"
  shows "length (filter Q xs) \<le> 1"
  using assms(1)
proof (induction xs)
  case Nil
  then show ?case by simp
next
  case (Cons x xs)
  show ?case
  proof (cases "Q x")
    case True
    have "\<not> Q y" if "y \<in> set xs" for y
      using Cons.prems that assms(2) [OF True, of y] by auto
    then have "filter Q xs = []" by (simp add: filter_empty_conv)
    with True show ?thesis by simp
  next
    case False
    with Cons show ?thesis by simp
  qed
qed

lemma separated_window:
  assumes "separated cd als"
  shows "length (sent_in_window cd b s w als) \<le> 1"
  unfolding sent_in_window_def
proof (rule at_most_one_filtered)
  show "sorted_wrt (\<lambda>a a'. al_book a = al_book a' \<and>
      al_competing_source a = al_competing_source a' \<longrightarrow>
      al_triggered_at a + cd \<le> al_triggered_at a') als"
    using assms by (simp add: separated_def)
next
  fix x y
  assume "same_pair b s x \<and> al_status x = Sent \<and> w \<le> al_triggered_at x \<and> al_triggered_at x < w + cd"
    and "same_pair b s y \<and> al_status y = Sent \<and> w \<le> al_triggered_at y \<and> al_triggered_at y < w + cd"
  then show "\<not> (al_book x = al_book y \<and> al_competing_source x = al_competing_source y \<longrightarrow>
      al_triggered_at x + cd \<le> al_triggered_at y)"
    by (auto simp: same_pair_def)
qed

lemma run_events_append:
  "run_events cd (evs @ evs') als = run_events cd evs' (run_events cd evs als)"
  by (simp add: run_events_def)

lemma run_events_crossing_acks:
  "run_events cd (CrossingEvent d c # map AcknowledgeEvent acks) als =
     run_events cd (map AcknowledgeEvent acks) (on_crossing cd d c als)"
  by (simp add: run_events_def)

text \<open>
  C1. Take a pair with no active cooldown at the time of a first qualifying crossing, a
  second crossing of the pair within the cooldown period of the first, and a third one
  after that period has elapsed, with any acknowledgements in between and whatever the
  dispatches did. The first crossing creates one Alert of the pair, the second creates
  none, the third creates a second Alert. And in every table the alert manager reaches
  from the empty one, each pair has at most one \<open>sent\<close> alert triggered within any window
  of one cooldown period.
\<close>

theorem cooldown_deduplicates_alerts:
  assumes pair: "cr_book c1 = b" "cr_source c1 = s" "cr_book c2 = b" "cr_source c2 = s"
      "cr_book c3 = b" "cr_source c3 = s"
    and idle: "\<not> cooldown_active cd als b s (cr_time c1)"
    and within: "cr_time c2 < cr_time c1 + cd"
    and after: "cr_time c1 + cd \<le> cr_time c3"
  shows "pair_count b s (run_events cd (CrossingEvent d1 c1 # map AcknowledgeEvent acks1) als) =
      pair_count b s als + 1 \<and>
    pair_count b s (run_events cd
        ((CrossingEvent d1 c1 # map AcknowledgeEvent acks1) @
         (CrossingEvent d2 c2 # map AcknowledgeEvent acks2)) als) =
      pair_count b s als + 1 \<and>
    pair_count b s (run_events cd
        ((CrossingEvent d1 c1 # map AcknowledgeEvent acks1) @
         (CrossingEvent d2 c2 # map AcknowledgeEvent acks2) @
         [CrossingEvent d3 c3]) als) =
      pair_count b s als + 2 \<and>
    length (sent_in_window cd b' s' w (run_events cd evs [])) \<le> 1"
proof -
  define t1 where "t1 = on_crossing cd d1 c1 als"
  define s1 where "s1 = run_events cd (map AcknowledgeEvent acks1) t1"
  define t2 where "t2 = on_crossing cd d2 c2 s1"
  define s2 where "s2 = run_events cd (map AcknowledgeEvent acks2) t2"
  define s3 where "s3 = on_crossing cd d3 c3 s2"
  have k1: "map trigger_key s1 = map trigger_key t1"
    unfolding s1_def by (rule keys_acknowledge_events)
  have k2: "map trigger_key s2 = map trigger_key t2"
    unfolding s2_def by (rule keys_acknowledge_events)
  have t1: "t1 = als @ [new_alert d1 c1]"
    using idle pair by (simp add: t1_def on_crossing_def)
  have n1: "pair_count b s t1 = pair_count b s als + 1"
    using pair by (simp add: t1 pair_count_def same_pair_def new_alert_def)
  have c1: "pair_count b s s1 = pair_count b s als + 1"
    using keys_eq_pair_count [OF k1] n1 by simp
  have "cooldown_active cd t1 b s (cr_time c2)"
    using within pair by (auto simp: cooldown_active_iff t1 new_alert_def same_pair_def)
  then have act2: "cooldown_active cd s1 b s (cr_time c2)"
    using keys_eq_cooldown_active [OF k1] by simp
  then have t2: "t2 = s1"
    using pair by (simp add: t2_def on_crossing_def)
  have c2: "pair_count b s s2 = pair_count b s als + 1"
    using keys_eq_pair_count [OF k2] t2 c1 by simp
  have old: "\<forall>a \<in> set als. same_pair b s a \<longrightarrow> al_triggered_at a + cd \<le> cr_time c1"
    using idle by (auto simp: cooldown_active_iff not_less)
  have "\<not> cooldown_active cd t1 b s (cr_time c3)"
    using old after pair
    by (fastforce simp: cooldown_active_iff t1 new_alert_def same_pair_def not_less)
  then have "\<not> cooldown_active cd s2 b s (cr_time c3)"
    using keys_eq_cooldown_active [OF k2] keys_eq_cooldown_active [OF k1] t2 by simp
  then have "pair_count b s s3 = pair_count b s s2 + 1"
    using pair pair_count_on_crossing [of c3 cd d3 s2] by (simp add: s3_def)
  with c2 have c3: "pair_count b s s3 = pair_count b s als + 2" by simp
  have r1: "run_events cd (CrossingEvent d1 c1 # map AcknowledgeEvent acks1) als = s1"
    by (simp add: run_events_crossing_acks s1_def t1_def)
  have r2: "run_events cd (CrossingEvent d2 c2 # map AcknowledgeEvent acks2) s1 = s2"
    by (simp add: run_events_crossing_acks s2_def t2_def)
  have r3: "run_events cd [CrossingEvent d3 c3] s2 = s3"
    by (simp add: run_events_def s3_def)
  have "separated cd []" by (simp add: separated_def)
  then have "separated cd (run_events cd evs [])" by (rule separated_run_events)
  then have inv: "length (sent_in_window cd b' s' w (run_events cd evs [])) \<le> 1"
    by (rule separated_window)
  show ?thesis
    unfolding run_events_append r1 r2 r3 using c1 c2 c3 inv by simp
qed


text \<open>
  A cooldown of 3600 and crossings at 1000, 2000 and 5000, the first alert acknowledged
  before the second crossing: one Alert, still one, then two.
\<close>

theorem cooldown_deduplicates_alerts_witness:
  "\<not> cooldown_active 3600 [] ''9780134685991'' ''amazon'' (cr_time (crossing_at 1000)) \<and>
   cr_time (crossing_at 2000) < cr_time (crossing_at 1000) + 3600 \<and>
   cr_time (crossing_at 1000) + 3600 \<le> cr_time (crossing_at 5000) \<and>
   pair_count ''9780134685991'' ''amazon''
     (run_events 3600 (CrossingEvent True (crossing_at 1000) # map AcknowledgeEvent [0]) []) = 1 \<and>
   pair_count ''9780134685991'' ''amazon''
     (run_events 3600
        ((CrossingEvent True (crossing_at 1000) # map AcknowledgeEvent [0]) @
         (CrossingEvent True (crossing_at 2000) # map AcknowledgeEvent [])) []) = 1 \<and>
   pair_count ''9780134685991'' ''amazon''
     (run_events 3600
        ((CrossingEvent True (crossing_at 1000) # map AcknowledgeEvent [0]) @
         (CrossingEvent True (crossing_at 2000) # map AcknowledgeEvent []) @
         [CrossingEvent True (crossing_at 5000)]) []) = 2"
proof -
  have p: "cr_book (crossing_at t) = ''9780134685991''" "cr_source (crossing_at t) = ''amazon''"
    for t by (simp_all add: crossing_at_def)
  have idle: "\<not> cooldown_active 3600 [] ''9780134685991'' ''amazon'' (cr_time (crossing_at 1000))"
    by (simp add: cooldown_active_def last_trigger_def)
  have within: "cr_time (crossing_at 2000) < cr_time (crossing_at 1000) + 3600"
    by (simp add: crossing_at_def)
  have after: "cr_time (crossing_at 1000) + 3600 \<le> cr_time (crossing_at 5000)"
    by (simp add: crossing_at_def)
  have zero: "pair_count ''9780134685991'' ''amazon'' [] = 0"
    by (simp add: pair_count_def)
  note t = cooldown_deduplicates_alerts [OF p p p idle within after,
      of True "[0]" True "[]" True]
  show ?thesis
    using idle within after t unfolding zero by simp
qed

end
